theory Spec2Isabelle
  imports Complex_Main
begin

text \<open>
  A model of the sitemap generator of \<open>src/index.ts\<close>: the class \<open>Sitemap\<close>, which
  normalizes the paths added to it into route objects, and the class \<open>SiteMapGenerator\<close>,
  which renders routes as a \<open><urlset>\<close> or a \<open><sitemapindex>\<close> document. Objects are kept
  in stores and named by references, methods take the world and return it changed, and a
  rejected promise is an error value.
\<close>

section \<open>JavaScript values the program works on\<close>

subsection \<open>Numbers\<close>

text \<open>
  A JavaScript Number is kept as the decimal its conversion to a string prints: \<open>Decimal m e\<close>
  stands for \<open>m * 10 ^ e\<close> (the shortest decimal that reads back as the same double), so
  \<open>1\<close> is \<open>Decimal 1 0\<close> and \<open>0.8\<close> is \<open>Decimal 8 (-1)\<close>. Both zeros are \<open>Decimal 0 e\<close>:
  the program only tests a number for truthiness, prints it, or hands it to \<open>slice\<close>, and none
  of these tells \<open>-0\<close> from \<open>0\<close>.
\<close>

datatype number = NaN | PosInfinity | NegInfinity | Decimal int int

definition truthy_number :: "number \<Rightarrow> bool" where
  "truthy_number x = (case x of NaN \<Rightarrow> False | Decimal m e \<Rightarrow> m \<noteq> 0 | _ \<Rightarrow> True)"

definition truthy_opt_number :: "number option \<Rightarrow> bool" where
  "truthy_opt_number x = (case x of None \<Rightarrow> False | Some n \<Rightarrow> truthy_number n)"

definition truthy_string :: "string \<Rightarrow> bool" where
  "truthy_string s = (s \<noteq> [])"

fun digits :: "nat \<Rightarrow> string" where
  "digits n = (if n < 10 then [''0123456789'' ! n]
               else digits (n div 10) @ [''0123456789'' ! (n mod 10)])"

declare digits.simps [simp del]

text \<open>\<open>Number::toString\<close> in radix 10, which a template string applies to a number.\<close>

definition Number_toString :: "number \<Rightarrow> string" where
  "Number_toString x =
     (case x of
        NaN \<Rightarrow> ''NaN''
      | PosInfinity \<Rightarrow> ''Infinity''
      | NegInfinity \<Rightarrow> ''-Infinity''
      | Decimal m e \<Rightarrow>
          if m = 0 then ''0''
          else
            (let ds = digits (nat \<bar>m\<bar>);
                 z = length (takeWhile (\<lambda>c. c = CHR ''0'') (rev ds));
                 s = take (length ds - z) ds;
                 k = int (length s);
                 n = k + (e + int z)
             in (if m < 0 then ''-'' else '''') @
                (if k \<le> n \<and> n \<le> 21 then s @ replicate (nat (n - k)) (CHR ''0'')
                 else if 0 < n \<and> n \<le> 21 then take (nat n) s @ ''.'' @ drop (nat n) s
                 else if - 6 < n \<and> n \<le> 0 then ''0.'' @ replicate (nat (- n)) (CHR ''0'') @ s
                 else (if k = 1 then s else take 1 s @ ''.'' @ drop 1 s) @ ''e'' @
                      (if n - 1 < 0 then ''-'' else ''+'') @ digits (nat \<bar>n - 1\<bar>))))"

text \<open>\<open>ToIntegerOrInfinity\<close> on a finite number: truncation towards zero.\<close>

definition truncate_decimal :: "int \<Rightarrow> int \<Rightarrow> int" where
  "truncate_decimal m e =
     (if 0 \<le> e then m * 10 ^ nat e
      else if m < 0 then - (\<bar>m\<bar> div 10 ^ nat (- e))
      else m div 10 ^ nat (- e))"

text \<open>
  \<open>Array.prototype.slice(0, end)\<close> with \<open>end\<close> given: a negative \<open>end\<close> counts from the
  back, and the result never reaches outside the array.
\<close>

definition slice0 :: "'a list \<Rightarrow> number \<Rightarrow> 'a list" where
  "slice0 xs end =
     (case end of
        NaN \<Rightarrow> []
      | PosInfinity \<Rightarrow> xs
      | NegInfinity \<Rightarrow> []
      | Decimal m e \<Rightarrow>
          (let relativeEnd = truncate_decimal m e
           in if relativeEnd < 0 then take (nat (int (length xs) + relativeEnd)) xs
              else take (nat relativeEnd) xs))"

subsection \<open>Dates\<close>

text \<open>
  A Date object holds a time value: milliseconds since the epoch, or none for an Invalid
  Date. Time values beyond 8.64e15 ms do not exist (the constructor clips them to invalid).
\<close>

datatype error = RangeError

datatype Date = Date (timeValue: "int option")

definition pad :: "nat \<Rightarrow> nat \<Rightarrow> string" where
  "pad width n = replicate (width - length (digits n)) (CHR ''0'') @ digits n"

definition ymd_of_day :: "int \<Rightarrow> int \<times> int \<times> int" where
  "ymd_of_day day =
     (let z = day + 719468;
          era = z div 146097;
          doe = z mod 146097;
          yoe = (doe - doe div 1460 + doe div 36524 - doe div 146096) div 365;
          doy = doe - (365 * yoe + yoe div 4 - yoe div 100);
          mp = (5 * doy + 2) div 153;
          d = doy - (153 * mp + 2) div 5 + 1;
          m = (if mp < 10 then mp + 3 else mp - 9);
          y = yoe + era * 400 + (if m \<le> 2 then 1 else 0)
      in (y, m, d))"

definition iso_year :: "int \<Rightarrow> string" where
  "iso_year y =
     (if 0 \<le> y \<and> y \<le> 9999 then pad 4 (nat y)
      else (if y < 0 then ''-'' else ''+'') @ pad 6 (nat \<bar>y\<bar>))"

definition toISOString :: "Date \<Rightarrow> error + string" where
  "toISOString d =
     (case timeValue d of
        None \<Rightarrow> Inl RangeError
      | Some t \<Rightarrow>
          if 8640000000000000 < \<bar>t\<bar> then Inl RangeError
          else
            (let (y, m, dd) = ymd_of_day (t div 86400000);
                 ms = t mod 86400000
             in Inr (iso_year y @ ''-'' @ pad 2 (nat m) @ ''-'' @ pad 2 (nat dd) @ ''T'' @
                     pad 2 (nat (ms div 3600000)) @ '':'' @
                     pad 2 (nat (ms div 60000 mod 60)) @ '':'' @
                     pad 2 (nat (ms div 1000 mod 60)) @ ''.'' @
                     pad 3 (nat (ms mod 1000)) @ ''Z'')))"

text \<open>The union type \<open>Date | string\<close> of the field \<open>lastModified\<close>.\<close>

datatype lastmod = OfDate Date | OfString string

subsection \<open>Plain objects with string keys and string values\<close>

text \<open>
  The \<open>hreflang\<close> object is kept as the list of its own entries in the order
  \<open>Object.entries\<close> enumerates them: keys that are array indices first, in ascending
  numeric order, then the other keys in the order they were created. Assigning to a key
  that exists keeps its place. The key \<open>__proto__\<close> is the accessor of the prototype: it
  ignores a string and creates no entry.
\<close>

type_synonym object = "(string \<times> string) list"

definition is_digit :: "char \<Rightarrow> bool" where
  "is_digit c = (c \<in> set ''0123456789'')"

definition digit_value :: "char \<Rightarrow> nat" where
  "digit_value c = length (takeWhile (\<lambda>d. d \<noteq> c) ''0123456789'')"

definition decimal_value :: "string \<Rightarrow> nat" where
  "decimal_value s = foldl (\<lambda>a c. 10 * a + digit_value c) 0 s"

definition is_array_index :: "string \<Rightarrow> bool" where
  "is_array_index s =
     (s \<noteq> [] \<and> list_all is_digit s \<and> (if hd s = CHR ''0'' then s = ''0'' else True) \<and>
      decimal_value s \<le> 4294967294)"

fun insert_index :: "string \<Rightarrow> string \<Rightarrow> object \<Rightarrow> object" where
  "insert_index k v [] = [(k, v)]"
| "insert_index k v ((k', v') # es) =
     (if is_array_index k' \<and> decimal_value k' < decimal_value k
      then (k', v') # insert_index k v es
      else (k, v) # (k', v') # es)"

definition obj_set :: "object \<Rightarrow> string \<Rightarrow> string \<Rightarrow> object" where
  "obj_set obj k v =
     (if k = ''__proto__'' then obj
      else if k \<in> fst ` set obj then map (\<lambda>(k', v'). if k' = k then (k', v) else (k', v')) obj
      else if is_array_index k then insert_index k v obj
      else obj @ [(k, v)])"

section \<open>The data model\<close>

text \<open>The type \<open>SitemapPath\<close>; an optional field is an option.\<close>

record SitemapPath =
  path :: string
  lastModified :: "lastmod option"
  changeFrequency :: "string option"
  priority :: "number option"
  hreflang :: "object option"

text \<open>
  Objects live in stores and are named by references (their index in the store), so that
  two names for one object, and a copy of it, are different things. The world is the store
  of route objects, the store of \<open>Sitemap\<close> objects, and the calls made to \<open>putFile\<close>
  (destination and content, oldest first). The \<open>hreflang\<close> object and the Date of a route
  are kept inside the route: the program never shares one between two routes.
\<close>

type_synonym ref = nat

record Sitemap =
  paths :: "ref list"
  p_split :: bool
  p_maxURLsPerSitemap :: number
  p_splitByLanguages :: bool
  baseUrl :: string
  localeCodes :: "string list"

record world =
  routeStore :: "SitemapPath list"
  sitemapStore :: "Sitemap list"
  putFileCalls :: "(string \<times> string) list"

text \<open>The argument of \<open>add\<close>: a bare string or (a reference to) a \<open>SitemapPath\<close> object.\<close>

datatype path_arg = PathString string | PathObject ref

definition new_object :: "SitemapPath \<Rightarrow> world \<Rightarrow> ref \<times> world" where
  "new_object v w = (length (routeStore w), w\<lparr>routeStore := routeStore w @ [v]\<rparr>)"

definition update_route :: "ref \<Rightarrow> (SitemapPath \<Rightarrow> SitemapPath) \<Rightarrow> world \<Rightarrow> world" where
  "update_route r f w = w\<lparr>routeStore := (routeStore w)[r := f (routeStore w ! r)]\<rparr>"

definition update_sitemap :: "ref \<Rightarrow> (Sitemap \<Rightarrow> Sitemap) \<Rightarrow> world \<Rightarrow> world" where
  "update_sitemap r f w = w\<lparr>sitemapStore := (sitemapStore w)[r := f (sitemapStore w ! r)]\<rparr>"

section \<open>The helpers imported from @mongez/reinforcements and @mongez/fs\<close>

text \<open>
  Modelled from the spec: \<open>ltrim\<close> of @mongez/reinforcements is not among the sources. The
  spec has it strip the leading slashes of the relative path and leave the rest as it is;
  the needle is the one character the program passes.
\<close>

definition ltrim :: "string \<Rightarrow> char \<Rightarrow> string" where
  "ltrim str needle = dropWhile (\<lambda>c. c = needle) str"

text \<open>
  Modelled from the spec: \<open>clone\<close> of @mongez/reinforcements is not among the sources. The
  spec has it make a copy deep enough that changing the copy never changes the original:
  a new object with the same field values.
\<close>

definition clone :: "ref \<Rightarrow> world \<Rightarrow> ref \<times> world" where
  "clone r w = new_object (routeStore w ! r) w"

text \<open>
  Modelled from the spec: \<open>putFile\<close> of @mongez/fs is not among the sources. The spec has it
  take a destination path and a string; the model records the call.
\<close>

definition putFile :: "string \<Rightarrow> string \<Rightarrow> world \<Rightarrow> world" where
  "putFile dest content w = w\<lparr>putFileCalls := putFileCalls w @ [(dest, content)]\<rparr>"

section \<open>The class \<open>Sitemap\<close>: configuration and \<open>add\<close>\<close>

definition new_Sitemap :: "string \<Rightarrow> string list \<Rightarrow> world \<Rightarrow> ref \<times> world" where
  "new_Sitemap base codes w =
     (length (sitemapStore w),
      w\<lparr>sitemapStore := sitemapStore w @
         [\<lparr>paths = [], p_split = False, p_maxURLsPerSitemap = Decimal 50000 0,
           p_splitByLanguages = True, baseUrl = base, localeCodes = codes\<rparr>]\<rparr>)"

definition setLocales :: "ref \<Rightarrow> string list \<Rightarrow> world \<Rightarrow> ref \<times> world" where
  "setLocales this codes w = (this, update_sitemap this (\<lambda>s. s\<lparr>localeCodes := codes\<rparr>) w)"

definition split :: "ref \<Rightarrow> bool \<Rightarrow> world \<Rightarrow> ref \<times> world" where
  "split this flag w = (this, update_sitemap this (\<lambda>s. s\<lparr>p_split := flag\<rparr>) w)"

definition maxURLsPerSitemap :: "ref \<Rightarrow> number \<Rightarrow> world \<Rightarrow> ref \<times> world" where
  "maxURLsPerSitemap this n w =
     (this, update_sitemap this (\<lambda>s. s\<lparr>p_maxURLsPerSitemap := n\<rparr>) w)"

definition splitByLanguages :: "ref \<Rightarrow> bool \<Rightarrow> world \<Rightarrow> ref \<times> world" where
  "splitByLanguages this flag w =
     (this, update_sitemap this (\<lambda>s. s\<lparr>p_splitByLanguages := flag\<rparr>) w)"

text \<open>
  \<open>parsePath\<close>, statement by statement. Every assignment to a field of \<open>internalRoute\<close> is an
  update of the object the reference names; \<open>this.baseUrl\<close>, \<open>this.localeCodes\<close> and
  \<open>internalRoute.path\<close> are read from the world as it is at that statement.
\<close>

definition set_hreflang_entry :: "ref \<Rightarrow> ref \<Rightarrow> string \<Rightarrow> world \<Rightarrow> world" where
  "set_hreflang_entry this internalRoute localeCode w =
     update_route internalRoute
       (\<lambda>obj. obj\<lparr>hreflang := map_option
          (\<lambda>h. obj_set h localeCode
             (baseUrl (sitemapStore w ! this) @ ''/'' @ localeCode @ ''/'' @
              ltrim (path (routeStore w ! internalRoute)) (CHR ''/'')))
          (hreflang obj)\<rparr>) w"

definition parsePath :: "ref \<Rightarrow> path_arg \<Rightarrow> world \<Rightarrow> ref \<times> world" where
  "parsePath this arg w0 =
     (let (p, w1) =
            (case arg of
               PathString s \<Rightarrow>
                 new_object \<lparr>path = s, lastModified = None, changeFrequency = None,
                             priority = None, hreflang = None\<rparr> w0
             | PathObject r \<Rightarrow> (r, w0));
          (internalRoute, w2) = clone p w1;
          w3 = (if \<not> truthy_opt_number (priority (routeStore w2 ! internalRoute))
                then update_route internalRoute (\<lambda>obj. obj\<lparr>priority := Some (Decimal 1 0)\<rparr>) w2
                else w2);
          w4 = (if localeCodes (sitemapStore w3 ! this) \<noteq> []
                then fold (set_hreflang_entry this internalRoute)
                       (localeCodes (sitemapStore w3 ! this))
                       (update_route internalRoute (\<lambda>obj. obj\<lparr>hreflang := Some []\<rparr>) w3)
                else w3);
          w5 = update_route internalRoute
                 (\<lambda>obj. obj\<lparr>path := baseUrl (sitemapStore w4 ! this) @ ''/'' @
                                 ltrim (path (routeStore w4 ! internalRoute)) (CHR ''/'')\<rparr>) w4
      in (internalRoute, w5))"

definition add :: "ref \<Rightarrow> path_arg \<Rightarrow> world \<Rightarrow> world" where
  "add this arg w =
     (let (route, w1) = parsePath this arg w
      in update_sitemap this (\<lambda>s. s\<lparr>paths := paths s @ [route]\<rparr>) w1)"

section \<open>The class \<open>SiteMapGenerator\<close>\<close>

text \<open>
  A generator is made, filled and read within one call and no second name for it exists,
  so it is passed as a value. Its \<open>urls\<close> are references to the route objects of the
  \<open>Sitemap\<close> that made it.
\<close>

record SiteMapGenerator =
  urls :: "ref list"

definition new_SiteMapGenerator :: SiteMapGenerator where
  "new_SiteMapGenerator = \<lparr>urls = []\<rparr>"

definition SiteMapGenerator_add :: "SiteMapGenerator \<Rightarrow> ref list \<Rightarrow> SiteMapGenerator" where
  "SiteMapGenerator_add g us = fold (\<lambda>url g. g\<lparr>urls := urls g @ [url]\<rparr>) us g"

text \<open>
  Modelled from the spec: \<open>clone\<close> of @mongez/reinforcements, applied to an array, is not
  among the sources. A deep copy of an array of routes is a new array of copies.
\<close>

definition clone_array :: "ref list \<Rightarrow> world \<Rightarrow> ref list \<times> world" where
  "clone_array rs w =
     fold (\<lambda>r (copies, w). let (c, w') = clone r w in (copies @ [c], w')) rs ([], w)"

definition xmlHeader :: string where
  \<open>xmlHeader = ''<?xml version="1.0" encoding="UTF-8"?>''\<close>

definition xmlNamespace :: string where
  "xmlNamespace = ''http://www.sitemaps.org/schemas/sitemap/0.9''"

definition xhtmlNamespace :: string where
  "xhtmlNamespace = ''http://www.w3.org/1999/xhtml''"

text \<open>
  The body of the loop of \<open>generate\<close>, one definition per statement: each takes the text so
  far and returns it extended. Only \<open>toISOString\<close> can raise, on an Invalid Date.
\<close>

definition lastmod_step :: "SitemapPath \<Rightarrow> string \<Rightarrow> error + string" where
  "lastmod_step route xml =
     (case lastModified route of
        None \<Rightarrow> Inr xml
      | Some (OfString s) \<Rightarrow>
          if truthy_string s then Inr (xml @ ''    <lastmod>'' @ s @ ''</lastmod>\<newline>'')
          else Inr xml
      | Some (OfDate d) \<Rightarrow>
          (case toISOString d of
             Inl e \<Rightarrow> Inl e
           | Inr s \<Rightarrow> Inr (xml @ ''    <lastmod>'' @ s @ ''</lastmod>\<newline>'')))"

definition changefreq_step :: "SitemapPath \<Rightarrow> string \<Rightarrow> string" where
  "changefreq_step route xml =
     (case changeFrequency route of
        None \<Rightarrow> xml
      | Some c \<Rightarrow>
          if truthy_string c then xml @ ''    <changefreq>'' @ c @ ''</changefreq>\<newline>''
          else xml)"

definition priority_step :: "SitemapPath \<Rightarrow> string \<Rightarrow> string" where
  "priority_step route xml =
     (case priority route of
        None \<Rightarrow> xml
      | Some p \<Rightarrow>
          if truthy_number p
          then xml @ ''    <priority>'' @ Number_toString p @ ''</priority>\<newline>''
          else xml)"

definition hreflang_step :: "SitemapPath \<Rightarrow> string \<Rightarrow> string" where
  \<open>hreflang_step route xml =
     (case hreflang route of
        None \<Rightarrow> xml
      | Some h \<Rightarrow>
          fold (\<lambda>(key, value) xml.
                  xml @ ''    <xhtml:link rel="alternate" hreflang="'' @ key @
                        ''" href="'' @ value @ ''" />\<newline>'') h xml)\<close>

definition url_step :: "SitemapPath \<Rightarrow> string \<Rightarrow> error + string" where
  "url_step route xml0 =
     (let xml1 = xml0 @ ''  <url>\<newline>'';
          xml2 = xml1 @ ''    <loc>'' @ path route @ ''</loc>\<newline>''
      in case lastmod_step route xml2 of
           Inl e \<Rightarrow> Inl e
         | Inr xml3 \<Rightarrow>
             (let xml4 = changefreq_step route xml3;
                  xml5 = priority_step route xml4;
                  xml6 = hreflang_step route xml5
              in Inr (xml6 @ ''  </url>\<newline>'')))"

fun generate_loop :: "world \<Rightarrow> ref list \<Rightarrow> string \<Rightarrow> error + string" where
  "generate_loop w [] xml = Inr xml"
| "generate_loop w (route # routesList) xml =
     (case url_step (routeStore w ! route) xml of
        Inl e \<Rightarrow> Inl e
      | Inr xml' \<Rightarrow> generate_loop w routesList xml')"

definition SiteMapGenerator_generate ::
  "SiteMapGenerator \<Rightarrow> number option \<Rightarrow> world \<Rightarrow> (error + string) \<times> world" where
  \<open>SiteMapGenerator_generate g limit w =
     (let xml = xmlHeader @ ''\<newline><urlset xmlns="'' @ xmlNamespace @
                ''" xmlns:xhtml="'' @ xhtmlNamespace @ ''">\<newline>'';
          (routesList, w1) =
            (case limit of
               None \<Rightarrow> clone_array (urls g) w
             | Some l \<Rightarrow>
                 if truthy_number l
                 then (let (copies, w') = clone_array (urls g) w in (slice0 copies l, w'))
                 else clone_array (urls g) w)
      in (case generate_loop w1 routesList xml of
            Inl e \<Rightarrow> Inl e
          | Inr xml' \<Rightarrow> Inr (xml' @ ''</urlset>\<newline>''),
          w1))\<close>

definition SiteMapGenerator_generateSitemapsList ::
  "SiteMapGenerator \<Rightarrow> world \<Rightarrow> string \<times> world" where
  \<open>SiteMapGenerator_generateSitemapsList g w =
     (let xml = xmlHeader @ ''\<newline><sitemapindex xmlns="'' @ xmlNamespace @ ''">\<newline>'';
          (routesList, w1) = clone_array (urls g) w;
          xml' = fold (\<lambda>route xml.
                         xml @ ''  <sitemap>\<newline>'' @
                         ''    <loc>'' @ path (routeStore w1 ! route) @ ''</loc>\<newline>'' @
                         ''  </sitemap>\<newline>'') routesList xml
      in (xml' @ ''</sitemapindex>\<newline>'', w1))\<close>

section \<open>The class \<open>Sitemap\<close>: generation\<close>

definition generate :: "ref \<Rightarrow> number option \<Rightarrow> world \<Rightarrow> (error + string) \<times> world" where
  "generate this limit w =
     SiteMapGenerator_generate
       (SiteMapGenerator_add new_SiteMapGenerator (paths (sitemapStore w ! this))) limit w"

definition generateSitemapsList :: "ref \<Rightarrow> world \<Rightarrow> string \<times> world" where
  "generateSitemapsList this w =
     SiteMapGenerator_generateSitemapsList
       (SiteMapGenerator_add new_SiteMapGenerator (paths (sitemapStore w ! this))) w"

definition toXML :: "ref \<Rightarrow> world \<Rightarrow> (error + string) \<times> world" where
  "toXML this w = generate this None w"

definition saveTo :: "ref \<Rightarrow> string \<Rightarrow> world \<Rightarrow> (error + ref) \<times> world" where
  "saveTo this dest w =
     (case generate this None w of
        (Inl e, w1) \<Rightarrow> (Inl e, w1)
      | (Inr content, w1) \<Rightarrow> (Inr this, putFile dest content w1))"

text \<open>
  \<open>generateMultiLanguage\<close>. The loop over \<open>this.localeCodes\<close> makes a child \<open>Sitemap\<close>, adds
  to it every route object of \<open>this.paths\<close> (the stored objects themselves, by reference),
  awaits the child's \<open>toXML\<close> and drops the text it returns, then adds one path to the
  index. The two arrays are read when their loop starts: the body only adds to the child
  and to the index, which are new objects.
\<close>

fun locale_loop :: "ref \<Rightarrow> ref \<Rightarrow> string list \<Rightarrow> world \<Rightarrow> (error + unit) \<times> world" where
  "locale_loop this sitemapIndex [] w = (Inr (), w)"
| "locale_loop this sitemapIndex (localeCode # rest) w =
     (let (sitemap, w1) =
            new_Sitemap (baseUrl (sitemapStore w ! this) @ ''/'' @ localeCode) [] w;
          w2 = fold (\<lambda>route w. add sitemap (PathObject route) w)
                 (paths (sitemapStore w1 ! this)) w1
      in case toXML sitemap w2 of
           (Inl e, w3) \<Rightarrow> (Inl e, w3)
         | (Inr xml, w3) \<Rightarrow>
             locale_loop this sitemapIndex rest
               (add sitemapIndex (PathString (''/sitemap-'' @ localeCode @ ''.xml'')) w3))"

definition generateMultiLanguage :: "ref \<Rightarrow> world \<Rightarrow> (error + string) \<times> world" where
  "generateMultiLanguage this w =
     (let (sitemapIndex, w1) = new_Sitemap (baseUrl (sitemapStore w ! this)) [] w
      in case locale_loop this sitemapIndex (localeCodes (sitemapStore w1 ! this)) w1 of
           (Inl e, w2) \<Rightarrow> (Inl e, w2)
         | (Inr u, w2) \<Rightarrow>
             (let (xml, w3) = generateSitemapsList sitemapIndex w2 in (Inr xml, w3)))"

section \<open>Notions used to state the properties\<close>

definition empty_world :: world where
  "empty_world = \<lparr>routeStore = [], sitemapStore = [], putFileCalls = []\<rparr>"

text \<open>
  A world is well formed when every reference a \<open>Sitemap\<close> holds names an object of the
  route store (JavaScript has no dangling references).
\<close>

definition wf_world :: "world \<Rightarrow> bool" where
  "wf_world w = (\<forall>s \<in> set (sitemapStore w). \<forall>r \<in> set (paths s). r < length (routeStore w))"

text \<open>The routes a \<open>Sitemap\<close> holds, in order, read through its references.\<close>

definition stored_routes :: "ref \<Rightarrow> world \<Rightarrow> SitemapPath list" where
  "stored_routes this w = map (\<lambda>r. routeStore w ! r) (paths (sitemapStore w ! this))"

text \<open>
  What the argument of \<open>add\<close> denotes: the object it names or, for a bare string \<open>s\<close>, the
  object \<open>{ path: s }\<close>.
\<close>

definition as_route :: "path_arg \<Rightarrow> world \<Rightarrow> SitemapPath" where
  "as_route arg w =
     (case arg of
        PathString s \<Rightarrow> \<lparr>path = s, lastModified = None, changeFrequency = None,
                         priority = None, hreflang = None\<rparr>
      | PathObject r \<Rightarrow> routeStore w ! r)"

text \<open>
  The normalized route of the spec, as a function of the collection's configuration and the
  raw input: \<open>baseUrl + "/" + code + "/" + trimmed path\<close> for a locale code, the entries
  assigned code by code to an object, and the record with \<open>path\<close>, \<open>priority\<close> and
  \<open>hreflang\<close> recomputed.
\<close>

definition hreflang_url :: "string \<Rightarrow> string \<Rightarrow> string \<Rightarrow> string" where
  "hreflang_url base p code = base @ ''/'' @ code @ ''/'' @ dropWhile (\<lambda>c. c = CHR ''/'') p"

definition hreflang_entries :: "string \<Rightarrow> string \<Rightarrow> string list \<Rightarrow> object \<Rightarrow> object" where
  "hreflang_entries base p codes h =
     fold (\<lambda>code h. obj_set h code (hreflang_url base p code)) codes h"

definition normalized :: "Sitemap \<Rightarrow> SitemapPath \<Rightarrow> SitemapPath" where
  "normalized s v =
     v\<lparr>path := baseUrl s @ ''/'' @ dropWhile (\<lambda>c. c = CHR ''/'') (path v),
       priority := (if truthy_opt_number (priority v) then priority v
                    else Some (Decimal 1 0)),
       hreflang := (if localeCodes s \<noteq> []
                    then Some (hreflang_entries (baseUrl s) (path v) (localeCodes s) [])
                    else hreflang v)\<rparr>"

text \<open>
  The text one iteration of the loop of \<open>generate\<close> appends for a route, its \<open><url>\<close> block,
  is what the body makes of the empty text; likewise for each statement of the body.
\<close>

definition url_block :: "SitemapPath \<Rightarrow> error + string" where
  "url_block route = url_step route []"

definition the_block :: "SitemapPath \<Rightarrow> string" where
  "the_block route = (case url_block route of Inl e \<Rightarrow> [] | Inr b \<Rightarrow> b)"

definition lastmod_text :: "SitemapPath \<Rightarrow> string" where
  "lastmod_text route = (case lastmod_step route [] of Inl e \<Rightarrow> [] | Inr t \<Rightarrow> t)"

definition changefreq_text :: "SitemapPath \<Rightarrow> string" where
  "changefreq_text route = changefreq_step route []"

definition priority_text :: "SitemapPath \<Rightarrow> string" where
  "priority_text route = priority_step route []"

definition hreflang_text :: "SitemapPath \<Rightarrow> string" where
  "hreflang_text route = hreflang_step route []"

text \<open>A route whose \<open>lastModified\<close> is an Invalid Date: the one input \<open>generate\<close> raises on.\<close>

definition has_invalid_date :: "SitemapPath \<Rightarrow> bool" where
  "has_invalid_date route =
     (case lastModified route of
        Some (OfDate d) \<Rightarrow>
          (case timeValue d of None \<Rightarrow> True | Some t \<Rightarrow> 8640000000000000 < \<bar>t\<bar>)
      | _ \<Rightarrow> False)"

text \<open>
  The two documents of the spec, as functions of a list of routes: a \<open><urlset>\<close> of the
  \<open><url>\<close> blocks of the routes left by the limit, and a \<open><sitemapindex>\<close> of one
  \<open><sitemap>\<close> block per path.
\<close>

definition urlset_open :: string where
  \<open>urlset_open = ''<?xml version="1.0" encoding="UTF-8"?>\<newline><urlset xmlns="http://www.sitemaps.org/schemas/sitemap/0.9" xmlns:xhtml="http://www.w3.org/1999/xhtml">\<newline>''\<close>

definition urlset_close :: string where
  "urlset_close = ''</urlset>\<newline>''"

definition limited :: "number option \<Rightarrow> 'a list \<Rightarrow> 'a list" where
  "limited limit xs =
     (case limit of
        None \<Rightarrow> xs
      | Some l \<Rightarrow> if truthy_number l then slice0 xs l else xs)"

definition urlset_document :: "SitemapPath list \<Rightarrow> error + string" where
  "urlset_document routes =
     (if list_ex has_invalid_date routes then Inl RangeError
      else Inr (urlset_open @ concat (map the_block routes) @ urlset_close))"

definition sitemap_block :: "string \<Rightarrow> string" where
  "sitemap_block loc =
     ''  <sitemap>\<newline>'' @ ''    <loc>'' @ loc @ ''</loc>\<newline>'' @ ''  </sitemap>\<newline>''"

definition sitemapindex_open :: string where
  \<open>sitemapindex_open = ''<?xml version="1.0" encoding="UTF-8"?>\<newline><sitemapindex xmlns="http://www.sitemaps.org/schemas/sitemap/0.9">\<newline>''\<close>

definition sitemapindex_close :: string where
  "sitemapindex_close = ''</sitemapindex>\<newline>''"

text \<open>
  \<open>extends w w'\<close>: every object of \<open>w\<close> is in \<open>w'\<close> under the same reference with the same
  fields, and no file was written in between; \<open>w'\<close> may hold more objects.
\<close>

definition extends :: "world \<Rightarrow> world \<Rightarrow> bool" where
  "extends w w' =
     (take (length (routeStore w)) (routeStore w') = routeStore w \<and>
      take (length (sitemapStore w)) (sitemapStore w') = sitemapStore w \<and>
      putFileCalls w' = putFileCalls w)"

text \<open>Every route held by a \<open>Sitemap\<close> has a priority, and it is neither zero nor NaN.\<close>

definition priority_inv :: "world \<Rightarrow> bool" where
  "priority_inv w =
     (\<forall>s \<in> set (sitemapStore w). \<forall>r \<in> set (paths s).
        r < length (routeStore w) \<and> truthy_opt_number (priority (routeStore w ! r)))"

text \<open>Concrete worlds on which the properties are run.\<close>

definition example_input :: SitemapPath where
  "example_input =
     \<lparr>path = ''//about'', lastModified = Some (OfString ''2024-01-01''),
      changeFrequency = Some ''daily'', priority = Some (Decimal 0 0),
      hreflang = Some [(''fr'', ''https://example.com/fr/about'')]\<rparr>"

definition example_world :: world where
  "example_world =
     snd (new_Sitemap ''https://example.com'' [''en'', ''ar'']
            (snd (new_object example_input empty_world)))"

definition repeated_codes_world :: world where
  "repeated_codes_world = snd (new_Sitemap ''https://example.com'' [''en'', ''en''] empty_world)"

definition two_routes_world :: world where
  "two_routes_world =
     add 0 (PathString ''/about'')
       (add 0 (PathString ''/'') (snd (new_Sitemap ''https://example.com'' [] empty_world)))"

definition zero_priority_world :: world where
  "zero_priority_world =
     snd (new_Sitemap ''https://example.com'' []
            (snd (new_object \<lparr>path = ''/'', lastModified = None, changeFrequency = None,
                              priority = Some (Decimal 0 0), hreflang = None\<rparr> empty_world)))"

definition invalid_date_world :: world where
  "invalid_date_world =
     add 0 (PathObject 0)
       (snd (new_Sitemap ''https://example.com'' []
               (snd (new_object \<lparr>path = ''/'', lastModified = Some (OfDate (Date None)),
                                 changeFrequency = None, priority = None, hreflang = None\<rparr>
                       empty_world))))"

definition two_locales_world :: world where
  "two_locales_world =
     add 0 (PathString ''/about'')
       (add 0 (PathString ''/'')
          (snd (new_Sitemap ''https://example.com'' [''en'', ''ar''] empty_world)))"

section \<open>\<open>parsePath\<close> and \<open>add\<close>\<close>

lemma update_route_last:
  "update_route (length xs) f (w\<lparr>routeStore := xs @ [v]\<rparr>) = w\<lparr>routeStore := xs @ [f v]\<rparr>"
  by (simp add: update_route_def)

lemma fold_set_hreflang_entry:
  "fold (set_hreflang_entry this (length xs)) codes
     (w\<lparr>routeStore := xs @ [v\<lparr>hreflang := Some h\<rparr>]\<rparr>) =
   w\<lparr>routeStore := xs @
       [v\<lparr>hreflang := Some (hreflang_entries (baseUrl (sitemapStore w ! this)) (path v) codes h)\<rparr>]\<rparr>"
proof (induction codes arbitrary: h)
  case Nil
  show ?case by (simp add: hreflang_entries_def)
next
  case (Cons c cs)
  have "set_hreflang_entry this (length xs) c (w\<lparr>routeStore := xs @ [v\<lparr>hreflang := Some h\<rparr>]\<rparr>) =
        w\<lparr>routeStore := xs @
            [v\<lparr>hreflang := Some (obj_set h c (hreflang_url (baseUrl (sitemapStore w ! this)) (path v) c))\<rparr>]\<rparr>"
    by (simp add: set_hreflang_entry_def update_route_def hreflang_url_def ltrim_def)
  then show ?case using Cons.IH by (simp add: hreflang_entries_def)
qed

lemma parsePath_object:
  "parsePath this (PathObject r) w =
     (length (routeStore w),
      w\<lparr>routeStore := routeStore w @ [normalized (sitemapStore w ! this) (routeStore w ! r)]\<rparr>)"
  by (simp add: parsePath_def clone_def new_object_def Let_def update_route_last
        fold_set_hreflang_entry normalized_def ltrim_def)

lemma parsePath_string:
  "parsePath this (PathString s) w =
     (Suc (length (routeStore w)),
      w\<lparr>routeStore := routeStore w @
          [as_route (PathString s) w,
           normalized (sitemapStore w ! this) (as_route (PathString s) w)]\<rparr>)"
proof -
  let ?v = "\<lparr>path = s, lastModified = None, changeFrequency = None, priority = None,
             hreflang = None\<rparr>"
  have "parsePath this (PathString s) w =
        parsePath this (PathObject (length (routeStore w))) (w\<lparr>routeStore := routeStore w @ [?v]\<rparr>)"
    by (simp add: parsePath_def new_object_def)
  then show ?thesis
    by (simp add: parsePath_object as_route_def)
qed

text \<open>
  \<open>add\<close> in one step: the route store grows by at most one scratch object and then the
  normalized route, and the new reference is pushed on \<open>this.paths\<close>.
\<close>

lemma add_eq:
  "\<exists>pre. length pre \<le> 1 \<and>
     add this P w =
       w\<lparr>routeStore := routeStore w @ pre @ [normalized (sitemapStore w ! this) (as_route P w)],
         sitemapStore := (sitemapStore w)
           [this := (sitemapStore w ! this)
              \<lparr>paths := paths (sitemapStore w ! this) @ [length (routeStore w) + length pre]\<rparr>]\<rparr>"
proof (cases P)
  case (PathString s)
  show ?thesis
    unfolding PathString
    by (rule exI [of _ "[as_route (PathString s) w]"])
       (simp add: add_def parsePath_string update_sitemap_def)
next
  case (PathObject r)
  show ?thesis
    unfolding PathObject
    by (rule exI [of _ "[]"])
       (simp add: add_def parsePath_object update_sitemap_def as_route_def)
qed

lemma wf_world_add:
  assumes "wf_world w"
  shows "wf_world (add this P w)"
proof -
  obtain pre where e: "add this P w =
       w\<lparr>routeStore := routeStore w @ pre @ [normalized (sitemapStore w ! this) (as_route P w)],
         sitemapStore := (sitemapStore w)
           [this := (sitemapStore w ! this)
              \<lparr>paths := paths (sitemapStore w ! this) @ [length (routeStore w) + length pre]\<rparr>]\<rparr>"
    using add_eq by blast
  have old: "\<And>s r. s \<in> set (sitemapStore w) \<Longrightarrow> r \<in> set (paths s) \<Longrightarrow> r < length (routeStore w)"
    using assms by (simp add: wf_world_def)
  show ?thesis
  proof (cases "this < length (sitemapStore w)")
    case True
    then have "sitemapStore w ! this \<in> set (sitemapStore w)" by simp
    with old have "\<And>r. r \<in> set (paths (sitemapStore w ! this)) \<Longrightarrow> r < length (routeStore w)"
      by blast
    with old show ?thesis
      unfolding e wf_world_def
      by (auto dest!: set_update_subset_insert [THEN subsetD] simp: less_Suc_eq trans_less_add1)
  next
    case False
    then have upd: "(sitemapStore w)[this := X] = sitemapStore w" for X
      by (simp add: list_update_beyond)
    have "r < Suc (length (routeStore w) + length pre)"
      if "s \<in> set (sitemapStore w)" and "r \<in> set (paths s)" for s r
      using old [OF that] by simp
    then show ?thesis
      unfolding e wf_world_def by (simp add: upd)
  qed
qed

lemma stored_routes_add:
  assumes "wf_world w" and "this < length (sitemapStore w)"
  shows "stored_routes this (add this P w) =
         stored_routes this w @ [normalized (sitemapStore w ! this) (as_route P w)]"
proof -
  obtain pre where e: "add this P w =
       w\<lparr>routeStore := routeStore w @ pre @ [normalized (sitemapStore w ! this) (as_route P w)],
         sitemapStore := (sitemapStore w)
           [this := (sitemapStore w ! this)
              \<lparr>paths := paths (sitemapStore w ! this) @ [length (routeStore w) + length pre]\<rparr>]\<rparr>"
    using add_eq by blast
  have "sitemapStore w ! this \<in> set (sitemapStore w)" using assms(2) by simp
  then have old: "\<And>r. r \<in> set (paths (sitemapStore w ! this)) \<Longrightarrow> r < length (routeStore w)"
    using assms(1) by (auto simp: wf_world_def)
  have new: "(routeStore w @ pre @ [normalized (sitemapStore w ! this) (as_route P w)]) !
               (length (routeStore w) + length pre) =
             normalized (sitemapStore w ! this) (as_route P w)"
    by (simp add: nth_append)
  show ?thesis
    unfolding e stored_routes_def using assms(2) old new
    by (simp add: nth_append)
qed

lemma stored_routes_add_other:
  assumes "wf_world w" and "that < length (sitemapStore w)" and "that \<noteq> this"
  shows "stored_routes that (add this P w) = stored_routes that w"
proof -
  obtain pre where e: "add this P w =
       w\<lparr>routeStore := routeStore w @ pre @ [normalized (sitemapStore w ! this) (as_route P w)],
         sitemapStore := (sitemapStore w)
           [this := (sitemapStore w ! this)
              \<lparr>paths := paths (sitemapStore w ! this) @ [length (routeStore w) + length pre]\<rparr>]\<rparr>"
    using add_eq by blast
  have "sitemapStore w ! that \<in> set (sitemapStore w)" using assms(2) by simp
  then have old: "\<And>r. r \<in> set (paths (sitemapStore w ! that)) \<Longrightarrow> r < length (routeStore w)"
    using assms(1) by (auto simp: wf_world_def)
  show ?thesis
    unfolding e stored_routes_def using assms(3) old
    by (simp add: nth_append)
qed

text \<open>
  C1. For every base URL and every raw path, given as a bare string or as an object, with or
  without leading slashes: after \<open>add\<close> the collection holds one more route, whose path is
  the base URL, a slash, and the raw path without its leading slashes, and whose
  \<open>lastModified\<close> and \<open>changeFrequency\<close> are those of the input.
\<close>

theorem add_stores_absolute_path:
  assumes "wf_world w" and "this < length (sitemapStore w)"
  shows "\<exists>x. stored_routes this (add this P w) = stored_routes this w @ [x] \<and>
             path x = baseUrl (sitemapStore w ! this) @ ''/'' @
                      dropWhile (\<lambda>c. c = CHR ''/'') (path (as_route P w)) \<and>
             lastModified x = lastModified (as_route P w) \<and>
             changeFrequency x = changeFrequency (as_route P w)"
  using stored_routes_add [OF assms, of P] by (simp add: normalized_def)

text \<open>The example world, spelled out.\<close>

lemma example_world_eq:
  "example_world =
     \<lparr>routeStore = [example_input],
      sitemapStore = [\<lparr>paths = [], p_split = False, p_maxURLsPerSitemap = Decimal 50000 0,
                       p_splitByLanguages = True, baseUrl = ''https://example.com'',
                       localeCodes = [''en'', ''ar'']\<rparr>],
      putFileCalls = []\<rparr>"
  by (simp add: example_world_def new_Sitemap_def new_object_def empty_world_def)

lemma wf_example_world: "wf_world example_world"
  by (simp add: example_world_eq wf_world_def)

theorem add_stores_absolute_path_witness:
  "wf_world example_world \<and> 0 < length (sitemapStore example_world) \<and>
   (\<exists>x. stored_routes 0 (add 0 (PathObject 0) example_world) = [x] \<and>
        path x = ''https://example.com/about'' \<and>
        lastModified x = Some (OfString ''2024-01-01'') \<and>
        changeFrequency x = Some ''daily'')"
proof -
  have h: "0 < length (sitemapStore example_world)"
    by (simp add: example_world_eq)
  show ?thesis
    using add_stores_absolute_path [OF wf_example_world h, of "PathObject 0"] wf_example_world h
    by (simp add: example_world_eq stored_routes_def as_route_def example_input_def)
qed

section \<open>The entries of the \<open>hreflang\<close> object\<close>

lemma set_insert_index: "set (insert_index k v es) = insert (k, v) (set es)"
  by (induction es) (auto split: if_splits)

lemma distinct_insert_index:
  "k \<notin> fst ` set es \<Longrightarrow> distinct (map fst es) \<Longrightarrow> distinct (map fst (insert_index k v es))"
  by (induction es) (auto simp: set_insert_index split: if_splits)

lemma map_fst_overwrite:
  "map fst (map (\<lambda>(k', v'). if k' = k then (k', v) else (k', v')) h) = map fst h"
  by (induction h) auto

lemma set_overwrite:
  "set (map (\<lambda>(k', v'). if k' = k then (k', v) else (k', v')) h) \<subseteq> insert (k, v) (set h)"
  by (induction h) auto

lemma keys_obj_set:
  "fst ` set (obj_set h k v) = (if k = ''__proto__'' then fst ` set h else insert k (fst ` set h))"
proof -
  have "fst ` set (map (\<lambda>(k', v'). if k' = k then (k', v) else (k', v')) h) = fst ` set h"
    using map_fst_overwrite [of k v h] by (metis list.set_map)
  then show ?thesis
    by (auto simp: obj_set_def set_insert_index)
qed

lemma distinct_obj_set:
  "distinct (map fst h) \<Longrightarrow> distinct (map fst (obj_set h k v))"
  by (auto simp: obj_set_def map_fst_overwrite distinct_insert_index simp del: map_map)

lemma set_obj_set: "set (obj_set h k v) \<subseteq> insert (k, v) (set h)"
  using set_overwrite [of k v h] by (auto simp: obj_set_def set_insert_index)

lemma obj_set_append:
  "k \<noteq> ''__proto__'' \<Longrightarrow> k \<notin> fst ` set h \<Longrightarrow> \<not> is_array_index k \<Longrightarrow> obj_set h k v = h @ [(k, v)]"
  by (simp add: obj_set_def)

lemma keys_hreflang_entries:
  "fst ` set (hreflang_entries base p codes h) = fst ` set h \<union> (set codes - {''__proto__''})"
  by (induction codes arbitrary: h) (auto simp: hreflang_entries_def keys_obj_set)

lemma distinct_hreflang_entries:
  "distinct (map fst h) \<Longrightarrow> distinct (map fst (hreflang_entries base p codes h))"
  by (induction codes arbitrary: h) (auto simp: hreflang_entries_def distinct_obj_set)

lemma values_hreflang_entries:
  "\<forall>(c, u) \<in> set h. u = hreflang_url base p c \<Longrightarrow>
   \<forall>(c, u) \<in> set (hreflang_entries base p codes h). u = hreflang_url base p c"
proof (induction codes arbitrary: h)
  case Nil
  then show ?case by (simp add: hreflang_entries_def)
next
  case (Cons a codes)
  have "\<forall>(c, u) \<in> set (obj_set h a (hreflang_url base p a)). u = hreflang_url base p c"
    using Cons.prems set_obj_set [of h a "hreflang_url base p a"] by auto
  from Cons.IH [OF this] show ?case by (simp add: hreflang_entries_def)
qed

lemma hreflang_entries_in_order:
  "distinct codes \<Longrightarrow> ''__proto__'' \<notin> set codes \<Longrightarrow> \<forall>c \<in> set codes. \<not> is_array_index c \<Longrightarrow>
   set codes \<inter> fst ` set h = {} \<Longrightarrow>
   hreflang_entries base p codes h = h @ map (\<lambda>c. (c, hreflang_url base p c)) codes"
proof (induction codes arbitrary: h)
  case Nil
  then show ?case by (simp add: hreflang_entries_def)
next
  case (Cons a codes)
  have step: "obj_set h a (hreflang_url base p a) = h @ [(a, hreflang_url base p a)]"
    using Cons.prems by (intro obj_set_append) auto
  have "hreflang_entries base p codes (h @ [(a, hreflang_url base p a)]) =
        (h @ [(a, hreflang_url base p a)]) @ map (\<lambda>c. (c, hreflang_url base p c)) codes"
    using Cons.prems by (intro Cons.IH) auto
  then show ?case using step by (simp add: hreflang_entries_def)
qed

text \<open>
  C2 (as amended). After \<open>add\<close>, with a non-empty list of locale codes \<open>L\<close>: the stored
  route's \<open>hreflang\<close> has one entry per distinct code of \<open>L\<close> other than \<open>__proto__\<close>, each
  with the value base URL, slash, code, slash, path without leading slashes, whatever
  \<open>hreflang\<close> the input had; when the codes of \<open>L\<close> are pairwise distinct, none of them an
  array index or \<open>__proto__\<close>, these are \<open>|L|\<close> entries in the order of \<open>L\<close>. With an empty
  list the input's \<open>hreflang\<close> (possibly absent) is kept.
\<close>

theorem add_computes_hreflang:
  assumes "wf_world w" and "this < length (sitemapStore w)"
  shows "\<exists>x. stored_routes this (add this P w) = stored_routes this w @ [x] \<and>
           (if localeCodes (sitemapStore w ! this) = []
            then hreflang x = hreflang (as_route P w)
            else \<exists>h. hreflang x = Some h \<and>
                   distinct (map fst h) \<and>
                   fst ` set h = set (localeCodes (sitemapStore w ! this)) - {''__proto__''} \<and>
                   (\<forall>(c, u) \<in> set h.
                      u = baseUrl (sitemapStore w ! this) @ ''/'' @ c @ ''/'' @
                          dropWhile (\<lambda>c. c = CHR ''/'') (path (as_route P w))) \<and>
                   (distinct (localeCodes (sitemapStore w ! this)) \<and>
                    ''__proto__'' \<notin> set (localeCodes (sitemapStore w ! this)) \<and>
                    (\<forall>c \<in> set (localeCodes (sitemapStore w ! this)). \<not> is_array_index c) \<longrightarrow>
                    h = map (\<lambda>c. (c, baseUrl (sitemapStore w ! this) @ ''/'' @ c @ ''/'' @
                                      dropWhile (\<lambda>c. c = CHR ''/'') (path (as_route P w))))
                          (localeCodes (sitemapStore w ! this))))"
proof -
  let ?s = "sitemapStore w ! this"
  let ?L = "localeCodes ?s"
  let ?h = "hreflang_entries (baseUrl ?s) (path (as_route P w)) ?L []"
  have keys: "fst ` set ?h = set ?L - {''__proto__''}"
    by (simp add: keys_hreflang_entries)
  have dist: "distinct (map fst ?h)"
    by (simp add: distinct_hreflang_entries)
  have vals: "\<forall>(c, u) \<in> set ?h. u = hreflang_url (baseUrl ?s) (path (as_route P w)) c"
    by (rule values_hreflang_entries) simp
  have ord: "?h = map (\<lambda>c. (c, hreflang_url (baseUrl ?s) (path (as_route P w)) c)) ?L"
    if "distinct ?L" and "''__proto__'' \<notin> set ?L" and "\<forall>c \<in> set ?L. \<not> is_array_index c"
    using hreflang_entries_in_order [OF that, of "[]"] by simp
  show ?thesis
    unfolding stored_routes_add [OF assms, of P]
    apply (rule exI [of _ "normalized ?s (as_route P w)"])
    using keys dist vals ord
    by (simp add: normalized_def hreflang_url_def)
qed

theorem add_computes_hreflang_witness:
  "wf_world example_world \<and> 0 < length (sitemapStore example_world) \<and>
   map hreflang (stored_routes 0 (add 0 (PathObject 0) example_world)) =
     [Some [(''en'', ''https://example.com/en/about''), (''ar'', ''https://example.com/ar/about'')]]"
proof -
  have h: "0 < length (sitemapStore example_world)"
    by (simp add: example_world_eq)
  have codes: "\<forall>c \<in> set [''en'', ''ar'']. \<not> is_array_index c"
    by (simp add: is_array_index_def is_digit_def)
  show ?thesis
    using add_computes_hreflang [OF wf_example_world h, of "PathObject 0"] wf_example_world h codes
    by (auto simp: example_world_eq stored_routes_def as_route_def example_input_def)
qed

theorem hreflang_repeated_code_counterexample:
  "length (localeCodes (sitemapStore repeated_codes_world ! 0)) = 2 \<and>
   map hreflang (stored_routes 0 (add 0 (PathString ''/about'') repeated_codes_world)) =
     [Some [(''en'', ''https://example.com/en/about'')]]"
  by (simp add: repeated_codes_world_def new_Sitemap_def empty_world_def add_def parsePath_string
        update_sitemap_def stored_routes_def normalized_def as_route_def hreflang_entries_def
        hreflang_url_def obj_set_def truthy_opt_number_def)

section \<open>The two documents\<close>

lemma SiteMapGenerator_add_urls:
  "SiteMapGenerator_add g us = g\<lparr>urls := urls g @ us\<rparr>"
  by (induction us arbitrary: g) (simp_all add: SiteMapGenerator_add_def)

lemma SiteMapGenerator_add_new:
  "SiteMapGenerator_add new_SiteMapGenerator us = \<lparr>urls = us\<rparr>"
  by (simp add: SiteMapGenerator_add_urls new_SiteMapGenerator_def)

lemma clone_array_gen:
  assumes "\<forall>r \<in> set rs. r < length (routeStore w)"
  shows "fold (\<lambda>r (copies, w). let (c, w') = clone r w in (copies @ [c], w')) rs
           (acc, w\<lparr>routeStore := routeStore w @ ys\<rparr>) =
         (acc @ map (\<lambda>i. length (routeStore w) + length ys + i) [0..<length rs],
          w\<lparr>routeStore := routeStore w @ ys @ map (\<lambda>r. routeStore w ! r) rs\<rparr>)"
  using assms
proof (induction rs arbitrary: acc ys)
  case Nil
  then show ?case by simp
next
  case (Cons r rs)
  have step: "clone r (w\<lparr>routeStore := routeStore w @ ys\<rparr>) =
              (length (routeStore w) + length ys,
               w\<lparr>routeStore := routeStore w @ (ys @ [routeStore w ! r])\<rparr>)"
    using Cons.prems by (simp add: clone_def new_object_def nth_append)
  have idx: "map (\<lambda>i. length (routeStore w) + length ys + i) [0..<length (r # rs)] =
             (length (routeStore w) + length ys) #
             map (\<lambda>i. length (routeStore w) + length (ys @ [routeStore w ! r]) + i) [0..<length rs]"
    by (simp add: upt_rec [of 0] map_Suc_upt [symmetric] del: upt_Suc)
  show ?case
    using Cons.IH [of "acc @ [length (routeStore w) + length ys]" "ys @ [routeStore w ! r]"] Cons.prems
    unfolding idx by (simp add: step)
qed

lemma clone_array_eq:
  assumes "\<forall>r \<in> set rs. r < length (routeStore w)"
  shows "clone_array rs w =
         (map (\<lambda>i. length (routeStore w) + i) [0..<length rs],
          w\<lparr>routeStore := routeStore w @ map (\<lambda>r. routeStore w ! r) rs\<rparr>)"
  using clone_array_gen [OF assms, of "[]" "[]"] by (simp add: clone_array_def)

lemma map_nth_copies:
  "map (\<lambda>r. (xs @ ys) ! r) (map (\<lambda>i. length xs + i) [0..<length ys]) = ys"
  by (rule nth_equalityI) simp_all


lemma lastmod_step_eq:
  "lastmod_step route xml =
     (if has_invalid_date route then Inl RangeError else Inr (xml @ lastmod_text route))"
  by (simp add: lastmod_step_def lastmod_text_def has_invalid_date_def toISOString_def
        truthy_string_def Let_def
      split: option.splits lastmod.splits prod.splits)

lemma changefreq_step_eq: "changefreq_step route xml = xml @ changefreq_text route"
  by (simp add: changefreq_step_def changefreq_text_def split: option.splits)

lemma priority_step_eq: "priority_step route xml = xml @ priority_text route"
  by (simp add: priority_step_def priority_text_def split: option.splits)

lemma fold_append_text:
  "fold (\<lambda>x xml. xml @ f x) xs xml = xml @ concat (map f xs)"
  by (induction xs arbitrary: xml) simp_all

lemma hreflang_step_eq: "hreflang_step route xml = xml @ hreflang_text route"
proof (cases "hreflang route")
  case None
  then show ?thesis by (simp add: hreflang_step_def hreflang_text_def)
next
  case (Some h)
  have "fold (\<lambda>(key, value) xml. xml @ g key value) h xml = xml @ concat (map (\<lambda>(key, value). g key value) h)"
    for g :: "string \<Rightarrow> string \<Rightarrow> string" and xml
    using fold_append_text [of "\<lambda>(key, value). g key value" h xml]
    by (simp add: case_prod_unfold)
  then show ?thesis using Some
    by (simp add: hreflang_step_def hreflang_text_def)
qed

lemma url_step_eq:
  "url_step route xml =
     (if has_invalid_date route then Inl RangeError
      else Inr (xml @ ''  <url>\<newline>'' @ ''    <loc>'' @ path route @ ''</loc>\<newline>'' @
                lastmod_text route @ changefreq_text route @ priority_text route @
                hreflang_text route @ ''  </url>\<newline>''))"
  unfolding url_step_def Let_def lastmod_step_eq [of route]
  by (simp add: changefreq_step_eq [of route] priority_step_eq [of route] hreflang_step_eq [of route])

lemma url_block_eq:
  "url_block route =
     (if has_invalid_date route then Inl RangeError
      else Inr (''  <url>\<newline>'' @ ''    <loc>'' @ path route @ ''</loc>\<newline>'' @
                lastmod_text route @ changefreq_text route @ priority_text route @
                hreflang_text route @ ''  </url>\<newline>''))"
  unfolding url_block_def url_step_eq by simp

lemma url_step_block:
  "url_step route xml =
     (if has_invalid_date route then Inl RangeError else Inr (xml @ the_block route))"
  by (simp add: url_step_eq the_block_def url_block_eq)

lemma generate_loop_eq:
  "generate_loop w rs xml =
     (if list_ex has_invalid_date (map (\<lambda>r. routeStore w ! r) rs) then Inl RangeError
      else Inr (xml @ concat (map the_block (map (\<lambda>r. routeStore w ! r) rs))))"
  by (induction rs arbitrary: xml) (simp_all add: url_step_block)

lemma slice0_map: "slice0 (map f xs) l = map f (slice0 xs l)"
  by (cases l) (simp_all add: slice0_def Let_def take_map)

lemma limited_map: "limited limit (map f xs) = map f (limited limit xs)"
  by (simp add: limited_def slice0_map split: option.splits)

lemma SiteMapGenerator_generate_eq:
  assumes "\<forall>r \<in> set (urls g). r < length (routeStore w)"
  shows "SiteMapGenerator_generate g limit w =
         (urlset_document (limited limit (map (\<lambda>r. routeStore w ! r) (urls g))),
          w\<lparr>routeStore := routeStore w @ map (\<lambda>r. routeStore w ! r) (urls g)\<rparr>)"
proof -
  let ?copies = "map (\<lambda>i. length (routeStore w) + i) [0..<length (urls g)]"
  let ?vals = "map (\<lambda>r. routeStore w ! r) (urls g)"
  have vals: "map (\<lambda>r. (routeStore w @ ?vals) ! r) ?copies = ?vals"
    using map_nth_copies [of "routeStore w" ?vals] by simp
  have lim: "map (\<lambda>r. (routeStore w @ ?vals) ! r) (limited limit ?copies) = limited limit ?vals"
    using limited_map [of limit "\<lambda>r. (routeStore w @ ?vals) ! r" ?copies, symmetric] vals by simp
  have sl: "map (\<lambda>r. (routeStore w @ ?vals) ! r) (slice0 ?copies l) = slice0 ?vals l" for l
    using slice0_map [of "\<lambda>r. (routeStore w @ ?vals) ! r" ?copies l, symmetric] vals by simp
  show ?thesis
    unfolding SiteMapGenerator_generate_def clone_array_eq [OF assms]
    using vals sl
    by (simp add: generate_loop_eq urlset_document_def limited_def urlset_open_def urlset_close_def
          xmlHeader_def xmlNamespace_def xhtmlNamespace_def split: option.splits)
qed

lemma generate_eq:
  assumes "wf_world w" and "this < length (sitemapStore w)"
  shows "generate this limit w =
         (urlset_document (limited limit (stored_routes this w)),
          w\<lparr>routeStore := routeStore w @ stored_routes this w\<rparr>)"
proof -
  have "sitemapStore w ! this \<in> set (sitemapStore w)" using assms(2) by simp
  then have "\<forall>r \<in> set (paths (sitemapStore w ! this)). r < length (routeStore w)"
    using assms(1) by (auto simp: wf_world_def)
  then show ?thesis
    by (simp add: generate_def SiteMapGenerator_add_new SiteMapGenerator_generate_eq stored_routes_def)
qed

lemma SiteMapGenerator_generateSitemapsList_eq:
  assumes "\<forall>r \<in> set (urls g). r < length (routeStore w)"
  shows "SiteMapGenerator_generateSitemapsList g w =
         (sitemapindex_open @
          concat (map (\<lambda>x. sitemap_block (path x)) (map (\<lambda>r. routeStore w ! r) (urls g))) @
          sitemapindex_close,
          w\<lparr>routeStore := routeStore w @ map (\<lambda>r. routeStore w ! r) (urls g)\<rparr>)"
proof -
  let ?copies = "map (\<lambda>i. length (routeStore w) + i) [0..<length (urls g)]"
  let ?vals = "map (\<lambda>r. routeStore w ! r) (urls g)"
  have vals: "map (\<lambda>r. (routeStore w @ ?vals) ! r) ?copies = ?vals"
    using map_nth_copies [of "routeStore w" ?vals] by simp
  have "concat (map (\<lambda>r. sitemap_block (path ((routeStore w @ ?vals) ! r))) ?copies) =
        concat (map (\<lambda>x. sitemap_block (path x)) (map (\<lambda>r. (routeStore w @ ?vals) ! r) ?copies))"
    by (simp add: comp_def)
  then have blocks: "concat (map (\<lambda>r. sitemap_block (path ((routeStore w @ ?vals) ! r))) ?copies) =
        concat (map (\<lambda>x. sitemap_block (path x)) ?vals)"
    unfolding vals .
  show ?thesis
    unfolding SiteMapGenerator_generateSitemapsList_def clone_array_eq [OF assms]
    using blocks fold_append_text [of "\<lambda>r. sitemap_block (path ((routeStore w @ ?vals) ! r))" ?copies]
    by (simp add: sitemapindex_open_def sitemapindex_close_def sitemap_block_def
          xmlHeader_def xmlNamespace_def)
qed

lemma generateSitemapsList_eq:
  assumes "wf_world w" and "this < length (sitemapStore w)"
  shows "generateSitemapsList this w =
         (sitemapindex_open @ concat (map (\<lambda>x. sitemap_block (path x)) (stored_routes this w)) @
          sitemapindex_close,
          w\<lparr>routeStore := routeStore w @ stored_routes this w\<rparr>)"
proof -
  have "sitemapStore w ! this \<in> set (sitemapStore w)" using assms(2) by simp
  then have "\<forall>r \<in> set (paths (sitemapStore w ! this)). r < length (routeStore w)"
    using assms(1) by (auto simp: wf_world_def)
  then show ?thesis
    by (simp add: generateSitemapsList_def SiteMapGenerator_add_new
          SiteMapGenerator_generateSitemapsList_eq stored_routes_def)
qed

section \<open>What generation leaves as it was\<close>

lemma stored_routes_grow:
  assumes "wf_world w" and "this < length (sitemapStore w)"
  shows "stored_routes this (w\<lparr>routeStore := routeStore w @ ys\<rparr>) = stored_routes this w"
proof -
  have "sitemapStore w ! this \<in> set (sitemapStore w)" using assms(2) by simp
  then have "\<forall>r \<in> set (paths (sitemapStore w ! this)). r < length (routeStore w)"
    using assms(1) by (auto simp: wf_world_def)
  then show ?thesis by (simp add: stored_routes_def nth_append)
qed

lemma wf_world_grow: "wf_world w \<Longrightarrow> wf_world (w\<lparr>routeStore := routeStore w @ ys\<rparr>)"
  by (fastforce simp: wf_world_def trans_less_add1)

lemma extends_refl: "extends w w"
  by (simp add: extends_def)

lemma take_prefix_length:
  assumes "take (length xs0) xs = xs0"
  shows "length xs0 \<le> length xs"
proof -
  have "length (take (length xs0) xs) = length xs0" using assms by simp
  then show ?thesis by simp
qed

lemma extends_grow:
  assumes "extends w0 w"
  shows "extends w0 (w\<lparr>routeStore := routeStore w @ ys\<rparr>)"
proof -
  have "length (routeStore w0) \<le> length (routeStore w)"
    using assms by (intro take_prefix_length) (simp add: extends_def)
  then show ?thesis using assms by (simp add: extends_def)
qed

lemma truncate_decimal_zero: "truncate_decimal 0 e = 0"
  by (simp add: truncate_decimal_def)

lemma limited_positive:
  assumes "truncate_decimal m e = int k" and "0 < k"
  shows "limited (Some (Decimal m e)) xs = take k xs"
proof -
  have "m \<noteq> 0" using assms truncate_decimal_zero [of e] by auto
  then show ?thesis using assms
    by (simp add: limited_def truthy_number_def slice0_def)
qed

lemma two_routes_world_eq:
  "two_routes_world =
     \<lparr>routeStore =
        [\<lparr>path = ''/'', lastModified = None, changeFrequency = None, priority = None,
          hreflang = None\<rparr>,
         \<lparr>path = ''https://example.com/'', lastModified = None, changeFrequency = None,
          priority = Some (Decimal 1 0), hreflang = None\<rparr>,
         \<lparr>path = ''/about'', lastModified = None, changeFrequency = None, priority = None,
          hreflang = None\<rparr>,
         \<lparr>path = ''https://example.com/about'', lastModified = None, changeFrequency = None,
          priority = Some (Decimal 1 0), hreflang = None\<rparr>],
      sitemapStore =
        [\<lparr>paths = [1, 3], p_split = False, p_maxURLsPerSitemap = Decimal 50000 0,
          p_splitByLanguages = True, baseUrl = ''https://example.com'', localeCodes = []\<rparr>],
      putFileCalls = []\<rparr>"
  by (simp add: two_routes_world_def new_Sitemap_def empty_world_def add_def parsePath_string
        update_sitemap_def normalized_def as_route_def truthy_opt_number_def)

lemma wf_two_routes_world: "wf_world two_routes_world"
  by (simp add: two_routes_world_eq wf_world_def)

lemma Number_toString_one: "Number_toString (Decimal 1 0) = ''1''"
  by (simp add: Number_toString_def Let_def digits.simps)

section \<open>The limit of \<open>generate\<close>\<close>

text \<open>
  C3 (as amended). For a collection holding \<open>n\<close> routes and a limit whose integer part \<open>k\<close>
  satisfies \<open>0 < k < n\<close>: \<open>generate(limit)\<close> renders the first \<open>k\<close> routes in insertion
  order, that is, it returns the \<open><urlset>\<close> document of exactly their \<open>k\<close> \<open><url>\<close> blocks,
  or raises \<open>RangeError\<close> when one of them carries an Invalid Date; \<open>generate()\<close> renders all
  \<open>n\<close> routes in the same way; and the call leaves every object of the world, so the
  collection and its routes, as it was.
\<close>

theorem generate_positive_limit:
  assumes "wf_world w" and "this < length (sitemapStore w)"
    and "truncate_decimal m e = int k" and "0 < k" and "k < length (stored_routes this w)"
  shows "fst (generate this (Some (Decimal m e)) w) =
           (if list_ex has_invalid_date (take k (stored_routes this w)) then Inl RangeError
            else Inr (urlset_open @ concat (map the_block (take k (stored_routes this w))) @
                      urlset_close)) \<and>
         length (map the_block (take k (stored_routes this w))) = k \<and>
         fst (generate this None w) =
           (if list_ex has_invalid_date (stored_routes this w) then Inl RangeError
            else Inr (urlset_open @ concat (map the_block (stored_routes this w)) @
                      urlset_close)) \<and>
         stored_routes this (snd (generate this (Some (Decimal m e)) w)) = stored_routes this w \<and>
         extends w (snd (generate this (Some (Decimal m e)) w))"
proof -
  let ?R = "stored_routes this w"
  have g: "generate this limit w =
           (urlset_document (limited limit ?R), w\<lparr>routeStore := routeStore w @ ?R\<rparr>)" for limit
    by (rule generate_eq [OF assms(1,2)])
  have lim: "limited (Some (Decimal m e)) ?R = take k ?R"
    by (rule limited_positive [OF assms(3,4)])
  have none: "limited None ?R = ?R"
    by (simp add: limited_def)
  have frame: "stored_routes this (w\<lparr>routeStore := routeStore w @ ?R\<rparr>) = ?R"
    by (rule stored_routes_grow [OF assms(1,2)])
  have ext: "extends w (w\<lparr>routeStore := routeStore w @ ?R\<rparr>)"
    by (rule extends_grow [OF extends_refl])
  have len: "length (map the_block (take k ?R)) = k"
    using assms(5) by simp
  show ?thesis
    unfolding g fst_conv snd_conv lim none urlset_document_def
    using frame ext len by simp
qed


theorem generate_positive_limit_witness:
  \<open>wf_world two_routes_world \<and> 0 < length (sitemapStore two_routes_world) \<and>
   truncate_decimal 1 0 = int 1 \<and> (0::nat) < 1 \<and> 1 < length (stored_routes 0 two_routes_world) \<and>
   fst (generate 0 (Some (Decimal 1 0)) two_routes_world) =
     Inr ''<?xml version="1.0" encoding="UTF-8"?>\<newline><urlset xmlns="http://www.sitemaps.org/schemas/sitemap/0.9" xmlns:xhtml="http://www.w3.org/1999/xhtml">\<newline>  <url>\<newline>    <loc>https://example.com/</loc>\<newline>    <priority>1</priority>\<newline>  </url>\<newline></urlset>\<newline>''\<close>
proof -
  have h: "0 < length (sitemapStore two_routes_world)"
    by (simp add: two_routes_world_eq)
  have t: "truncate_decimal 1 0 = int 1"
    by (simp add: truncate_decimal_def)
  have k: "(0::nat) < 1" by simp
  have n: "1 < length (stored_routes 0 two_routes_world)"
    by (simp add: two_routes_world_eq stored_routes_def)
  show ?thesis
    using generate_positive_limit [OF wf_two_routes_world h t k n] wf_two_routes_world h t n
    by (simp add: two_routes_world_eq stored_routes_def
          has_invalid_date_def the_block_def url_block_eq lastmod_text_def
          lastmod_step_def changefreq_text_def changefreq_step_def priority_text_def
          priority_step_def hreflang_text_def hreflang_step_def Number_toString_one
          truthy_number_def urlset_open_def urlset_close_def)
qed

theorem generate_zero_limit_counterexample:
  \<open>length (stored_routes 0 two_routes_world) = 2 \<and>
   fst (generate 0 (Some (Decimal 0 0)) two_routes_world) =
     Inr ''<?xml version="1.0" encoding="UTF-8"?>\<newline><urlset xmlns="http://www.sitemaps.org/schemas/sitemap/0.9" xmlns:xhtml="http://www.w3.org/1999/xhtml">\<newline>  <url>\<newline>    <loc>https://example.com/</loc>\<newline>    <priority>1</priority>\<newline>  </url>\<newline>  <url>\<newline>    <loc>https://example.com/about</loc>\<newline>    <priority>1</priority>\<newline>  </url>\<newline></urlset>\<newline>''\<close>
proof -
  have h: "0 < length (sitemapStore two_routes_world)"
    by (simp add: two_routes_world_eq)
  show ?thesis
    unfolding generate_eq [OF wf_two_routes_world h]
    by (simp add: two_routes_world_eq stored_routes_def limited_def truthy_number_def
          urlset_document_def has_invalid_date_def the_block_def url_block_eq lastmod_text_def
          lastmod_step_def changefreq_text_def changefreq_step_def priority_text_def
          priority_step_def hreflang_text_def hreflang_step_def Number_toString_one
          urlset_open_def urlset_close_def)
qed

text \<open>The one way \<open>generate\<close> fails: a held route whose \<open>lastModified\<close> is an Invalid Date.\<close>

lemma generate_invalid_date_raises:
  "map lastModified (stored_routes 0 invalid_date_world) = [Some (OfDate (Date None))] \<and>
   fst (generate 0 None invalid_date_world) = Inl RangeError"
proof -
  have e: "invalid_date_world =
     \<lparr>routeStore =
        [\<lparr>path = ''/'', lastModified = Some (OfDate (Date None)), changeFrequency = None,
          priority = None, hreflang = None\<rparr>,
         \<lparr>path = ''https://example.com/'', lastModified = Some (OfDate (Date None)),
          changeFrequency = None, priority = Some (Decimal 1 0), hreflang = None\<rparr>],
      sitemapStore =
        [\<lparr>paths = [1], p_split = False, p_maxURLsPerSitemap = Decimal 50000 0,
          p_splitByLanguages = True, baseUrl = ''https://example.com'', localeCodes = []\<rparr>],
      putFileCalls = []\<rparr>"
    by (simp add: invalid_date_world_def new_Sitemap_def new_object_def empty_world_def add_def
          parsePath_object update_sitemap_def normalized_def truthy_opt_number_def)
  show ?thesis
    unfolding e
    by (simp add: stored_routes_def generate_def SiteMapGenerator_add_new
          SiteMapGenerator_generate_eq limited_def urlset_document_def has_invalid_date_def)
qed

section \<open>The sitemap index\<close>

text \<open>
  C7. For every collection, \<open>generateSitemapsList\<close> returns the \<open><sitemapindex>\<close> document
  made of one \<open><sitemap><loc>path</loc></sitemap>\<close> block per held route, in insertion
  order, where the block is a function of the stored path alone; for an empty collection
  the document has no child element.
\<close>

theorem generateSitemapsList_document:
  assumes "wf_world w" and "this < length (sitemapStore w)"
  shows "fst (generateSitemapsList this w) =
           sitemapindex_open @
           concat (map (\<lambda>x. sitemap_block (path x)) (stored_routes this w)) @
           sitemapindex_close \<and>
         length (map (\<lambda>x. sitemap_block (path x)) (stored_routes this w)) =
           length (paths (sitemapStore w ! this)) \<and>
         (paths (sitemapStore w ! this) = [] \<longrightarrow>
            fst (generateSitemapsList this w) = sitemapindex_open @ sitemapindex_close)"
  by (simp add: generateSitemapsList_eq [OF assms]) (simp add: stored_routes_def)

theorem generateSitemapsList_document_witness:
  \<open>wf_world two_routes_world \<and> 0 < length (sitemapStore two_routes_world) \<and>
   fst (generateSitemapsList 0 two_routes_world) =
     ''<?xml version="1.0" encoding="UTF-8"?>\<newline><sitemapindex xmlns="http://www.sitemaps.org/schemas/sitemap/0.9">\<newline>  <sitemap>\<newline>    <loc>https://example.com/</loc>\<newline>  </sitemap>\<newline>  <sitemap>\<newline>    <loc>https://example.com/about</loc>\<newline>  </sitemap>\<newline></sitemapindex>\<newline>'' \<and>
   paths (sitemapStore (snd (new_Sitemap ''https://example.com'' [] empty_world)) ! 0) = [] \<and>
   fst (generateSitemapsList 0 (snd (new_Sitemap ''https://example.com'' [] empty_world))) =
     ''<?xml version="1.0" encoding="UTF-8"?>\<newline><sitemapindex xmlns="http://www.sitemaps.org/schemas/sitemap/0.9">\<newline></sitemapindex>\<newline>''\<close>
proof -
  let ?e = "snd (new_Sitemap ''https://example.com'' [] empty_world)"
  have h: "0 < length (sitemapStore two_routes_world)"
    by (simp add: two_routes_world_eq)
  have we: "wf_world ?e"
    by (simp add: new_Sitemap_def empty_world_def wf_world_def)
  have he: "0 < length (sitemapStore ?e)"
    by (simp add: new_Sitemap_def empty_world_def)
  have pe: "paths (sitemapStore ?e ! 0) = []"
    by (simp add: new_Sitemap_def empty_world_def)
  show ?thesis
    using generateSitemapsList_document [OF wf_two_routes_world h]
      generateSitemapsList_document [OF we he] wf_two_routes_world h pe
    by (simp add: two_routes_world_eq stored_routes_def sitemapindex_open_def
          sitemapindex_close_def sitemap_block_def)
qed

section \<open>Rendering is a function of the held routes\<close>

text \<open>
  C8. \<open>generate\<close> and \<open>generateSitemapsList\<close> are functions of the held route list: two
  collections holding the same routes give the same result (for the same limit), calling
  the same operation a second time gives the result of the first call, and a call leaves
  the held routes, and every object of the world, as they were.
\<close>

theorem render_is_pure:
  assumes "wf_world w" and "this < length (sitemapStore w)"
    and "wf_world w'" and "that < length (sitemapStore w')"
    and "stored_routes that w' = stored_routes this w"
  shows "fst (generate that limit w') = fst (generate this limit w) \<and>
         fst (generateSitemapsList that w') = fst (generateSitemapsList this w) \<and>
         fst (generate this limit (snd (generate this limit w))) = fst (generate this limit w) \<and>
         fst (generateSitemapsList this (snd (generateSitemapsList this w))) =
           fst (generateSitemapsList this w) \<and>
         stored_routes this (snd (generate this limit w)) = stored_routes this w \<and>
         stored_routes this (snd (generateSitemapsList this w)) = stored_routes this w \<and>
         extends w (snd (generate this limit w)) \<and>
         extends w (snd (generateSitemapsList this w))"
proof -
  let ?R = "stored_routes this w"
  let ?w1 = "w\<lparr>routeStore := routeStore w @ ?R\<rparr>"
  have wf1: "wf_world ?w1" by (rule wf_world_grow [OF assms(1)])
  have len1: "this < length (sitemapStore ?w1)" using assms(2) by simp
  have R1: "stored_routes this ?w1 = ?R" by (rule stored_routes_grow [OF assms(1,2)])
  have ext: "extends w ?w1" by (rule extends_grow [OF extends_refl])
  show ?thesis
    unfolding generate_eq [OF assms(1,2)] generate_eq [OF assms(3,4)]
      generateSitemapsList_eq [OF assms(1,2)] generateSitemapsList_eq [OF assms(3,4)]
      fst_conv snd_conv generate_eq [OF wf1 len1] generateSitemapsList_eq [OF wf1 len1]
    using assms(5) R1 ext by simp
qed

theorem render_is_pure_witness:
  "wf_world two_routes_world \<and> 0 < length (sitemapStore two_routes_world) \<and>
   fst (generate 0 None (snd (generate 0 None two_routes_world))) =
     fst (generate 0 None two_routes_world) \<and>
   fst (generateSitemapsList 0 (snd (generateSitemapsList 0 two_routes_world))) =
     fst (generateSitemapsList 0 two_routes_world) \<and>
   stored_routes 0 (snd (generate 0 None two_routes_world)) = stored_routes 0 two_routes_world"
proof -
  have h: "0 < length (sitemapStore two_routes_world)"
    by (simp add: two_routes_world_eq)
  show ?thesis
    using render_is_pure [OF wf_two_routes_world h wf_two_routes_world h refl, of None]
      wf_two_routes_world h
    by simp
qed

section \<open>\<open>setLocales\<close>\<close>

lemma length_sitemapStore_add: "length (sitemapStore (add this P w)) = length (sitemapStore w)"
  using add_eq [of this P w] by auto

lemma config_add:
  assumes "this < length (sitemapStore w)"
  shows "baseUrl (sitemapStore (add this P w) ! this) = baseUrl (sitemapStore w ! this) \<and>
         localeCodes (sitemapStore (add this P w) ! this) = localeCodes (sitemapStore w ! this)"
  using add_eq [of this P w] assms by auto

lemma wf_world_update_sitemap:
  assumes "wf_world w" and "\<And>s. paths (f s) = paths s"
  shows "wf_world (update_sitemap this f w)"
proof (cases "this < length (sitemapStore w)")
  case True
  have "\<forall>r \<in> set (paths s). r < length (routeStore w)"
    if "s \<in> set ((sitemapStore w)[this := f (sitemapStore w ! this)])" for s
  proof -
    from that have "s = f (sitemapStore w ! this) \<or> s \<in> set (sitemapStore w)"
      using set_update_subset_insert [of "sitemapStore w" this] by auto
    moreover have "sitemapStore w ! this \<in> set (sitemapStore w)" using True by simp
    ultimately show ?thesis using assms by (auto simp: wf_world_def)
  qed
  then show ?thesis by (simp add: wf_world_def update_sitemap_def)
next
  case False
  then show ?thesis using assms(1)
    by (simp add: wf_world_def update_sitemap_def list_update_beyond)
qed

lemma wf_world_setLocales: "wf_world w \<Longrightarrow> wf_world (snd (setLocales this codes w))"
  by (simp add: setLocales_def wf_world_update_sitemap)

lemma setLocales_eq:
  assumes "this < length (sitemapStore w)"
  shows "sitemapStore (snd (setLocales this codes w)) ! this =
           (sitemapStore w ! this)\<lparr>localeCodes := codes\<rparr> \<and>
         length (sitemapStore (snd (setLocales this codes w))) = length (sitemapStore w) \<and>
         routeStore (snd (setLocales this codes w)) = routeStore w \<and>
         stored_routes this (snd (setLocales this codes w)) = stored_routes this w"
  using assms by (simp add: setLocales_def update_sitemap_def stored_routes_def)

text \<open>
  C5. \<open>setLocales\<close> replaces the list of locale codes and only later calls of \<open>add\<close> see it:
  after \<open>add(P1); setLocales(L2); add(P2)\<close> the collection holds the route of \<open>P1\<close> as the
  first \<open>add\<close> stored it, with the \<open>hreflang\<close> computed from the list in force then, followed
  by the route of \<open>P2\<close>, whose \<open>hreflang\<close> is computed from \<open>L2\<close>.
\<close>

theorem setLocales_affects_later_adds_only:
  assumes "wf_world w" and "this < length (sitemapStore w)"
    and "w1 = add this P1 w" and "w2 = snd (setLocales this L2 w1)" and "w3 = add this P2 w2"
  shows "\<exists>x1 x2.
           stored_routes this w1 = stored_routes this w @ [x1] \<and>
           stored_routes this w3 = stored_routes this w @ [x1, x2] \<and>
           hreflang x1 =
             (if localeCodes (sitemapStore w ! this) = [] then hreflang (as_route P1 w)
              else Some (hreflang_entries (baseUrl (sitemapStore w ! this)) (path (as_route P1 w))
                           (localeCodes (sitemapStore w ! this)) [])) \<and>
           hreflang x2 =
             (if L2 = [] then hreflang (as_route P2 w2)
              else Some (hreflang_entries (baseUrl (sitemapStore w ! this)) (path (as_route P2 w2))
                           L2 []))"
proof -
  let ?s = "sitemapStore w ! this"
  have wf1: "wf_world w1" unfolding assms(3) by (rule wf_world_add [OF assms(1)])
  have len1: "this < length (sitemapStore w1)"
    unfolding assms(3) using assms(2) by (simp add: length_sitemapStore_add)
  have R1: "stored_routes this w1 = stored_routes this w @ [normalized ?s (as_route P1 w)]"
    unfolding assms(3) by (rule stored_routes_add [OF assms(1,2)])
  have wf2: "wf_world w2" unfolding assms(4) by (rule wf_world_setLocales [OF wf1])
  have s2: "sitemapStore w2 ! this = (sitemapStore w1 ! this)\<lparr>localeCodes := L2\<rparr>"
    and len2: "this < length (sitemapStore w2)"
    and R2: "stored_routes this w2 = stored_routes this w1"
    unfolding assms(4) using setLocales_eq [OF len1, of L2] len1 by simp_all
  have b2: "baseUrl (sitemapStore w2 ! this) = baseUrl ?s"
    and l2: "localeCodes (sitemapStore w2 ! this) = L2"
    unfolding s2 assms(3) using config_add [OF assms(2), of P1] by simp_all
  have R3: "stored_routes this w3 =
            stored_routes this w2 @ [normalized (sitemapStore w2 ! this) (as_route P2 w2)]"
    unfolding assms(5) by (rule stored_routes_add [OF wf2 len2])
  show ?thesis
    apply (rule exI [of _ "normalized ?s (as_route P1 w)"])
    apply (rule exI [of _ "normalized (sitemapStore w2 ! this) (as_route P2 w2)"])
    unfolding R3 R2 R1
    by (simp add: normalized_def b2 l2)
qed

theorem setLocales_affects_later_adds_only_witness:
  "wf_world example_world \<and> 0 < length (sitemapStore example_world) \<and>
   map hreflang
     (stored_routes 0
        (add 0 (PathString ''/contact'')
           (snd (setLocales 0 [''fr''] (add 0 (PathObject 0) example_world))))) =
     [Some [(''en'', ''https://example.com/en/about''), (''ar'', ''https://example.com/ar/about'')],
      Some [(''fr'', ''https://example.com/fr/contact'')]]"
proof -
  have h: "0 < length (sitemapStore example_world)"
    by (simp add: example_world_eq)
  have codes: "\<not> is_array_index ''en''" "\<not> is_array_index ''ar''" "\<not> is_array_index ''fr''"
    by (simp_all add: is_array_index_def is_digit_def)
  show ?thesis
    using setLocales_affects_later_adds_only [OF wf_example_world h refl refl refl,
        where ?P1.0 = "PathObject 0" and ?L2.0 = "[''fr'']" and ?P2.0 = "PathString ''/contact''"]
      wf_example_world h codes
    by (auto simp: example_world_eq stored_routes_def as_route_def example_input_def
          hreflang_entries_def hreflang_url_def obj_set_def)
qed

section \<open>The priority element\<close>

lemma priority_text_truthy:
  "priority route = Some p \<Longrightarrow> truthy_number p \<Longrightarrow>
   priority_text route = ''    <priority>'' @ Number_toString p @ ''</priority>\<newline>''"
  by (simp add: priority_text_def priority_step_def)

lemma zero_priority_world_eq:
  "zero_priority_world =
     \<lparr>routeStore = [\<lparr>path = ''/'', lastModified = None, changeFrequency = None,
                     priority = Some (Decimal 0 0), hreflang = None\<rparr>],
      sitemapStore = [\<lparr>paths = [], p_split = False, p_maxURLsPerSitemap = Decimal 50000 0,
                       p_splitByLanguages = True, baseUrl = ''https://example.com'',
                       localeCodes = []\<rparr>],
      putFileCalls = []\<rparr>"
  by (simp add: zero_priority_world_def new_Sitemap_def new_object_def empty_world_def)

lemma wf_zero_priority_world: "wf_world zero_priority_world"
  by (simp add: zero_priority_world_eq wf_world_def)

text \<open>
  C4 (as amended). For a route added with priority 1, with no priority, or with priority 0,
  the stored priority is 1 and the \<open><url>\<close> block \<open>generate\<close> emits for it contains
  \<open><priority>1</priority>\<close> between the \<open><changefreq>\<close> part and the alternate links:
  \<open>add\<close> replaces a falsy priority by the default, so a priority set to 0 is not omitted.
\<close>

theorem falsy_priority_rendered_as_one:
  assumes "wf_world w" and "this < length (sitemapStore w)"
    and "priority (as_route P w) = None \<or> priority (as_route P w) = Some (Decimal 1 0) \<or>
         priority (as_route P w) = Some (Decimal 0 e)"
  shows "\<exists>x. stored_routes this (add this P w) = stored_routes this w @ [x] \<and>
             priority x = Some (Decimal 1 0) \<and>
             url_block x =
               (if has_invalid_date x then Inl RangeError
                else Inr (''  <url>\<newline>'' @ ''    <loc>'' @ path x @ ''</loc>\<newline>'' @
                          lastmod_text x @ changefreq_text x @
                          ''    <priority>1</priority>\<newline>'' @
                          hreflang_text x @ ''  </url>\<newline>'')) \<and>
             fst (generate this None (add this P w)) =
               (if list_ex has_invalid_date (stored_routes this w @ [x]) then Inl RangeError
                else Inr (urlset_open @ concat (map the_block (stored_routes this w)) @
                          the_block x @ urlset_close))"
proof -
  let ?x = "normalized (sitemapStore w ! this) (as_route P w)"
  have R: "stored_routes this (add this P w) = stored_routes this w @ [?x]"
    by (rule stored_routes_add [OF assms(1,2)])
  have p: "priority ?x = Some (Decimal 1 0)"
    using assms(3) by (auto simp: normalized_def truthy_opt_number_def truthy_number_def)
  have t: "priority_text ?x = ''    <priority>1</priority>\<newline>''"
    using priority_text_truthy [OF p] by (simp add: truthy_number_def Number_toString_one)
  have wf1: "wf_world (add this P w)"
    by (rule wf_world_add [OF assms(1)])
  have len1: "this < length (sitemapStore (add this P w))"
    using assms(2) by (simp add: length_sitemapStore_add)
  have g: "fst (generate this None (add this P w)) =
           urlset_document (stored_routes this w @ [?x])"
    unfolding generate_eq [OF wf1 len1] R by (simp add: limited_def)
  show ?thesis
    apply (rule exI [of _ ?x])
    unfolding g urlset_document_def
    using R p t by (simp add: url_block_eq [of ?x])
qed

theorem falsy_priority_rendered_as_one_witness:
  \<open>wf_world zero_priority_world \<and> 0 < length (sitemapStore zero_priority_world) \<and>
   priority (as_route (PathObject 0) zero_priority_world) = Some (Decimal 0 0) \<and>
   map priority (stored_routes 0 (add 0 (PathObject 0) zero_priority_world)) = [Some (Decimal 1 0)] \<and>
   map url_block (stored_routes 0 (add 0 (PathObject 0) zero_priority_world)) =
     [Inr ''  <url>\<newline>    <loc>https://example.com/</loc>\<newline>    <priority>1</priority>\<newline>  </url>\<newline>'']\<close>
proof -
  have h: "0 < length (sitemapStore zero_priority_world)"
    by (simp add: zero_priority_world_eq)
  have p: "priority (as_route (PathObject 0) zero_priority_world) = Some (Decimal 0 0)"
    by (simp add: as_route_def zero_priority_world_eq)
  have p': "priority (as_route (PathObject 0) zero_priority_world) = None \<or>
            priority (as_route (PathObject 0) zero_priority_world) = Some (Decimal 1 0) \<or>
            priority (as_route (PathObject 0) zero_priority_world) = Some (Decimal 0 0)"
    using p by simp
  let ?x0 = "\<lparr>path = ''https://example.com/'', lastModified = None, changeFrequency = None,
              priority = Some (Decimal 1 0), hreflang = None\<rparr>"
  have R0: "stored_routes 0 zero_priority_world = []"
    by (simp add: zero_priority_world_eq stored_routes_def)
  have R: "stored_routes 0 (add 0 (PathObject 0) zero_priority_world) = [?x0]"
    unfolding stored_routes_add [OF wf_zero_priority_world h] R0
    by (simp add: normalized_def as_route_def zero_priority_world_eq truthy_opt_number_def
          truthy_number_def)
  from falsy_priority_rendered_as_one [OF wf_zero_priority_world h p']
  obtain x where x: "stored_routes 0 (add 0 (PathObject 0) zero_priority_world) =
                       stored_routes 0 zero_priority_world @ [x]"
      "priority x = Some (Decimal 1 0)"
      "url_block x =
         (if has_invalid_date x then Inl RangeError
          else Inr (''  <url>\<newline>'' @ ''    <loc>'' @ path x @ ''</loc>\<newline>'' @
                    lastmod_text x @ changefreq_text x @
                    ''    <priority>1</priority>\<newline>'' @
                    hreflang_text x @ ''  </url>\<newline>''))"
    by blast
  have "x = ?x0" using x(1) R R0 by simp
  then have "url_block ?x0 =
      Inr ''  <url>\<newline>    <loc>https://example.com/</loc>\<newline>    <priority>1</priority>\<newline>  </url>\<newline>''"
    using x(3)
    by (simp add: has_invalid_date_def lastmod_text_def lastmod_step_def changefreq_text_def
          changefreq_step_def hreflang_text_def hreflang_step_def)
  then show ?thesis
    using wf_zero_priority_world h p R by simp
qed

theorem zero_priority_counterexample:
  \<open>priority (routeStore zero_priority_world ! 0) = Some (Decimal 0 0) \<and>
   fst (generate 0 None (add 0 (PathObject 0) zero_priority_world)) =
     Inr ''<?xml version="1.0" encoding="UTF-8"?>\<newline><urlset xmlns="http://www.sitemaps.org/schemas/sitemap/0.9" xmlns:xhtml="http://www.w3.org/1999/xhtml">\<newline>  <url>\<newline>    <loc>https://example.com/</loc>\<newline>    <priority>1</priority>\<newline>  </url>\<newline></urlset>\<newline>''\<close>
proof -
  have h: "0 < length (sitemapStore zero_priority_world)"
    by (simp add: zero_priority_world_eq)
  have wf1: "wf_world (add 0 (PathObject 0) zero_priority_world)"
    by (rule wf_world_add [OF wf_zero_priority_world])
  have len1: "0 < length (sitemapStore (add 0 (PathObject 0) zero_priority_world))"
    using h by (simp add: length_sitemapStore_add)
  show ?thesis
    unfolding generate_eq [OF wf1 len1] stored_routes_add [OF wf_zero_priority_world h]
    by (simp add: zero_priority_world_eq stored_routes_def limited_def normalized_def as_route_def
          truthy_opt_number_def truthy_number_def
          urlset_document_def has_invalid_date_def the_block_def url_block_eq lastmod_text_def
          lastmod_step_def changefreq_text_def changefreq_step_def priority_text_def
          priority_step_def hreflang_text_def hreflang_step_def Number_toString_one
          urlset_open_def urlset_close_def)
qed

section \<open>What \<open>generateMultiLanguage\<close> keeps\<close>

text \<open>
  Whatever the routes, a generation only adds objects to the route store. A property of
  worlds that survives a new \<open>Sitemap\<close>, an \<open>add\<close> to a \<open>Sitemap\<close> numbered \<open>n\<close> or above,
  and new route objects, survives the loop over the locale codes and the whole of
  \<open>generateMultiLanguage\<close>.
\<close>

lemma clone_array_grows_gen:
  "\<exists>ys. snd (fold (\<lambda>r (copies, w). let (c, w') = clone r w in (copies @ [c], w')) rs
               (acc, w\<lparr>routeStore := routeStore w @ zs\<rparr>)) =
        w\<lparr>routeStore := routeStore w @ zs @ ys\<rparr>"
proof (induction rs arbitrary: acc zs)
  case Nil
  show ?case by (rule exI [of _ "[]"]) simp
next
  case (Cons r rs)
  obtain ys where "snd (fold (\<lambda>r (copies, w). let (c, w') = clone r w in (copies @ [c], w')) rs
               (acc @ [length (routeStore w) + length zs],
                w\<lparr>routeStore := routeStore w @ (zs @ [(routeStore w @ zs) ! r])\<rparr>)) =
        w\<lparr>routeStore := routeStore w @ (zs @ [(routeStore w @ zs) ! r]) @ ys\<rparr>"
    using Cons.IH by blast
  then show ?case
    by (intro exI [of _ "[(routeStore w @ zs) ! r] @ ys"]) (simp add: clone_def new_object_def)
qed

lemma clone_array_grows: "\<exists>ys. snd (clone_array rs w) = w\<lparr>routeStore := routeStore w @ ys\<rparr>"
  using clone_array_grows_gen [of rs "[]" w "[]"] by (simp add: clone_array_def)

lemma generate_grows: "\<exists>ys. snd (generate this limit w) = w\<lparr>routeStore := routeStore w @ ys\<rparr>"
proof -
  have "snd (generate this limit w) =
        snd (clone_array (urls (SiteMapGenerator_add new_SiteMapGenerator (paths (sitemapStore w ! this)))) w)"
    by (simp add: generate_def SiteMapGenerator_generate_def Let_def case_prod_beta split: option.splits)
  then show ?thesis using clone_array_grows by simp
qed

lemma generateSitemapsList_grows:
  "\<exists>ys. snd (generateSitemapsList this w) = w\<lparr>routeStore := routeStore w @ ys\<rparr>"
proof -
  have "snd (generateSitemapsList this w) =
        snd (clone_array (urls (SiteMapGenerator_add new_SiteMapGenerator (paths (sitemapStore w ! this)))) w)"
    by (simp add: generateSitemapsList_def SiteMapGenerator_generateSitemapsList_def Let_def
          case_prod_beta)
  then show ?thesis using clone_array_grows by simp
qed

lemma fold_add_preserves:
  assumes add: "\<And>w t P. I w \<Longrightarrow> n \<le> t \<Longrightarrow> I (add t P w)"
  shows "I w \<Longrightarrow> n \<le> t \<Longrightarrow> I (fold (\<lambda>route w. add t (PathObject route) w) rs w)"
  by (induction rs arbitrary: w) (simp_all add: add)

lemma locale_loop_preserves:
  assumes new: "\<And>w b c. I w \<Longrightarrow> I (snd (new_Sitemap b c w))"
    and add: "\<And>w t P. I w \<Longrightarrow> n \<le> t \<Longrightarrow> I (add t P w)"
    and grow: "\<And>w ys. I w \<Longrightarrow> I (w\<lparr>routeStore := routeStore w @ ys\<rparr>)"
    and len: "\<And>w. I w \<Longrightarrow> n \<le> length (sitemapStore w)"
  shows "I w \<Longrightarrow> n \<le> sitemapIndex \<Longrightarrow> I (snd (locale_loop this sitemapIndex codes w))"
proof (induction codes arbitrary: w)
  case Nil
  then show ?case by simp
next
  case (Cons c codes)
  let ?base = "baseUrl (sitemapStore w ! this) @ ''/'' @ c"
  let ?sitemap = "fst (new_Sitemap ?base [] w)"
  let ?w1 = "snd (new_Sitemap ?base [] w)"
  let ?w2 = "fold (\<lambda>route w. add ?sitemap (PathObject route) w) (paths (sitemapStore ?w1 ! this)) ?w1"
  have s: "n \<le> ?sitemap" using len [OF Cons.prems(1)] by (simp add: new_Sitemap_def)
  have I1: "I ?w1" by (rule new [OF Cons.prems(1)])
  have I2: "I ?w2" by (rule fold_add_preserves [of I n, OF add I1 s])
  obtain ys where w3: "snd (toXML ?sitemap ?w2) = ?w2\<lparr>routeStore := routeStore ?w2 @ ys\<rparr>"
    using generate_grows [of ?sitemap None ?w2] by (auto simp: toXML_def)
  have I3: "I (snd (toXML ?sitemap ?w2))" unfolding w3 by (rule grow [OF I2])
  show ?case
  proof (cases "fst (toXML ?sitemap ?w2)")
    case (Inl e)
    then show ?thesis using I3
      by (simp add: Let_def case_prod_beta)
  next
    case (Inr xml)
    have "I (add sitemapIndex (PathString (''/sitemap-'' @ c @ ''.xml'')) (snd (toXML ?sitemap ?w2)))"
      by (rule add [OF I3 Cons.prems(2)])
    from Cons.IH [OF this Cons.prems(2)] Inr show ?thesis
      by (simp add: Let_def case_prod_beta)
  qed
qed

lemma generateMultiLanguage_preserves:
  assumes new: "\<And>w b c. I w \<Longrightarrow> I (snd (new_Sitemap b c w))"
    and add: "\<And>w t P. I w \<Longrightarrow> n \<le> t \<Longrightarrow> I (add t P w)"
    and grow: "\<And>w ys. I w \<Longrightarrow> I (w\<lparr>routeStore := routeStore w @ ys\<rparr>)"
    and len: "\<And>w. I w \<Longrightarrow> n \<le> length (sitemapStore w)"
  shows "I w \<Longrightarrow> I (snd (generateMultiLanguage this w))"
proof -
  assume I0: "I w"
  let ?idx = "fst (new_Sitemap (baseUrl (sitemapStore w ! this)) [] w)"
  let ?w1 = "snd (new_Sitemap (baseUrl (sitemapStore w ! this)) [] w)"
  let ?loop = "locale_loop this ?idx (localeCodes (sitemapStore ?w1 ! this)) ?w1"
  have i: "n \<le> ?idx" using len [OF I0] by (simp add: new_Sitemap_def)
  have I2: "I (snd ?loop)"
    by (rule locale_loop_preserves [of I n, OF new add grow len new [OF I0] i])
  obtain ys where w3: "snd (generateSitemapsList ?idx (snd ?loop)) =
                       (snd ?loop)\<lparr>routeStore := routeStore (snd ?loop) @ ys\<rparr>"
    using generateSitemapsList_grows by blast
  have I3: "I (snd (generateSitemapsList ?idx (snd ?loop)))" unfolding w3 by (rule grow [OF I2])
  show ?thesis
  proof (cases "fst ?loop")
    case (Inl e)
    then show ?thesis using I2
      by (simp add: generateMultiLanguage_def Let_def case_prod_beta)
  next
    case (Inr u)
    then show ?thesis using I3
      by (simp add: generateMultiLanguage_def Let_def case_prod_beta)
  qed
qed

section \<open>Every stored route has a priority\<close>

lemma priority_inv_grow:
  "priority_inv w \<Longrightarrow> priority_inv (w\<lparr>routeStore := routeStore w @ ys\<rparr>)"
  by (fastforce simp: priority_inv_def nth_append trans_less_add1)

lemma priority_inv_new_Sitemap:
  "priority_inv w \<Longrightarrow> priority_inv (snd (new_Sitemap base codes w))"
  by (auto simp: priority_inv_def new_Sitemap_def)

lemma priority_inv_update_sitemap:
  assumes "priority_inv w" and "\<And>s. paths (f s) = paths s"
  shows "priority_inv (update_sitemap this f w)"
proof (cases "this < length (sitemapStore w)")
  case True
  have "\<forall>r \<in> set (paths s). r < length (routeStore w) \<and>
          truthy_opt_number (priority (routeStore w ! r))"
    if "s \<in> set ((sitemapStore w)[this := f (sitemapStore w ! this)])" for s
  proof -
    from that have "s = f (sitemapStore w ! this) \<or> s \<in> set (sitemapStore w)"
      using set_update_subset_insert [of "sitemapStore w" this] by auto
    moreover have "sitemapStore w ! this \<in> set (sitemapStore w)" using True by simp
    ultimately show ?thesis using assms by (auto simp: priority_inv_def)
  qed
  then show ?thesis by (simp add: priority_inv_def update_sitemap_def)
next
  case False
  then show ?thesis using assms(1)
    by (simp add: priority_inv_def update_sitemap_def list_update_beyond)
qed

lemma priority_normalized: "truthy_opt_number (priority (normalized s v))"
  by (simp add: normalized_def truthy_opt_number_def truthy_number_def)

lemma priority_inv_add:
  assumes "priority_inv w"
  shows "priority_inv (add this P w)"
proof -
  let ?x = "normalized (sitemapStore w ! this) (as_route P w)"
  obtain pre where e: "add this P w =
       w\<lparr>routeStore := routeStore w @ pre @ [?x],
         sitemapStore := (sitemapStore w)
           [this := (sitemapStore w ! this)
              \<lparr>paths := paths (sitemapStore w ! this) @ [length (routeStore w) + length pre]\<rparr>]\<rparr>"
    using add_eq by blast
  let ?w1 = "w\<lparr>routeStore := routeStore w @ (pre @ [?x])\<rparr>"
  have g: "priority_inv ?w1" by (rule priority_inv_grow [OF assms])
  have new: "(routeStore w @ pre @ [?x]) ! (length (routeStore w) + length pre) = ?x"
    by (simp add: nth_append)
  show ?thesis
  proof (cases "this < length (sitemapStore w)")
    case True
    then have mem: "sitemapStore w ! this \<in> set (sitemapStore w)" by simp
    have "r < length (routeStore w @ pre @ [?x]) \<and>
          truthy_opt_number (priority ((routeStore w @ pre @ [?x]) ! r))"
      if s: "s \<in> set ((sitemapStore w)
           [this := (sitemapStore w ! this)
              \<lparr>paths := paths (sitemapStore w ! this) @ [length (routeStore w) + length pre]\<rparr>])"
        and r: "r \<in> set (paths s)" for s r
    proof -
      from s have "s = (sitemapStore w ! this)
              \<lparr>paths := paths (sitemapStore w ! this) @ [length (routeStore w) + length pre]\<rparr> \<or>
            s \<in> set (sitemapStore w)"
        using set_update_subset_insert [of "sitemapStore w" this] by auto
      then consider "r = length (routeStore w) + length pre"
        | s' where "s' \<in> set (sitemapStore w)" "r \<in> set (paths s')"
        using r mem by auto
      then show ?thesis
      proof cases
        case 1
        then show ?thesis using new priority_normalized [of "sitemapStore w ! this" "as_route P w"]
          by simp
      next
        case 2
        then show ?thesis using g by (auto simp: priority_inv_def)
      qed
    qed
    then show ?thesis unfolding e priority_inv_def by simp
  next
    case False
    then have upd: "(sitemapStore w)[this := X] = sitemapStore w" for X
      by (simp add: list_update_beyond)
    show ?thesis unfolding e using g by (simp add: upd priority_inv_def)
  qed
qed

lemma priority_inv_putFile: "priority_inv w \<Longrightarrow> priority_inv (putFile dest content w)"
  by (simp add: priority_inv_def putFile_def)

lemma priority_inv_generate: "priority_inv w \<Longrightarrow> priority_inv (snd (generate this limit w))"
  using generate_grows [of this limit w] priority_inv_grow by auto

lemma priority_inv_generateSitemapsList:
  "priority_inv w \<Longrightarrow> priority_inv (snd (generateSitemapsList this w))"
  using generateSitemapsList_grows [of this w] priority_inv_grow by auto

lemma priority_inv_saveTo: "priority_inv w \<Longrightarrow> priority_inv (snd (saveTo this dest w))"
  using priority_inv_generate [of w this None]
  by (cases "fst (generate this None w)")
     (simp_all add: saveTo_def case_prod_beta priority_inv_putFile)

lemma priority_inv_generateMultiLanguage:
  "priority_inv w \<Longrightarrow> priority_inv (snd (generateMultiLanguage this w))"
  by (rule generateMultiLanguage_preserves [of priority_inv 0])
     (simp_all add: priority_inv_new_Sitemap priority_inv_add priority_inv_grow)

text \<open>
  C9. Every route a \<open>Sitemap\<close> holds has a defined priority that is neither zero nor NaN:
  this holds of the empty world and every operation keeps it (the constructor, the setters,
  \<open>add\<close>, which replaces an absent or falsy priority by 1, and the generations). Hence every
  \<open><url>\<close> block \<open>generate\<close> emits for a held route contains a \<open><priority>\<close> element.
\<close>

theorem stored_priority_is_truthy:
  assumes "priority_inv w"
  shows "priority_inv (snd (new_Sitemap base codes w)) \<and>
         priority_inv (add this P w) \<and>
         priority_inv (snd (setLocales this codes w)) \<and>
         priority_inv (snd (split this flag w)) \<and>
         priority_inv (snd (maxURLsPerSitemap this n w)) \<and>
         priority_inv (snd (splitByLanguages this flag w)) \<and>
         priority_inv (snd (generate this limit w)) \<and>
         priority_inv (snd (toXML this w)) \<and>
         priority_inv (snd (generateSitemapsList this w)) \<and>
         priority_inv (snd (saveTo this dest w)) \<and>
         priority_inv (snd (generateMultiLanguage this w)) \<and>
         (this < length (sitemapStore w) \<longrightarrow>
            (\<forall>x \<in> set (stored_routes this w).
               \<exists>p. priority x = Some p \<and> truthy_number p \<and>
                   url_block x =
                     (if has_invalid_date x then Inl RangeError
                      else Inr (''  <url>\<newline>'' @ ''    <loc>'' @ path x @ ''</loc>\<newline>'' @
                                lastmod_text x @ changefreq_text x @
                                ''    <priority>'' @ Number_toString p @ ''</priority>\<newline>'' @
                                hreflang_text x @ ''  </url>\<newline>''))))"
proof -
  have blocks: "\<exists>p. priority x = Some p \<and> truthy_number p \<and>
                   url_block x =
                     (if has_invalid_date x then Inl RangeError
                      else Inr (''  <url>\<newline>'' @ ''    <loc>'' @ path x @ ''</loc>\<newline>'' @
                                lastmod_text x @ changefreq_text x @
                                ''    <priority>'' @ Number_toString p @ ''</priority>\<newline>'' @
                                hreflang_text x @ ''  </url>\<newline>''))"
    if "this < length (sitemapStore w)" and "x \<in> set (stored_routes this w)" for x
  proof -
    have "sitemapStore w ! this \<in> set (sitemapStore w)" using that(1) by simp
    then have "truthy_opt_number (priority x)"
      using assms that(2) by (auto simp: priority_inv_def stored_routes_def)
    then obtain p where p: "priority x = Some p" "truthy_number p"
      by (auto simp: truthy_opt_number_def split: option.splits)
    show ?thesis
      using p priority_text_truthy [OF p] by (simp add: url_block_eq [of x])
  qed
  show ?thesis
    using assms blocks
    by (simp add: priority_inv_new_Sitemap priority_inv_add priority_inv_generate
          priority_inv_generateSitemapsList priority_inv_saveTo priority_inv_generateMultiLanguage
          toXML_def setLocales_def split_def maxURLsPerSitemap_def splitByLanguages_def
          priority_inv_update_sitemap)
qed

theorem stored_priority_is_truthy_witness:
  "priority_inv empty_world \<and> priority_inv zero_priority_world \<and>
   priority (routeStore zero_priority_world ! 0) = Some (Decimal 0 0) \<and>
   priority_inv (add 0 (PathObject 0) zero_priority_world) \<and>
   0 < length (sitemapStore (add 0 (PathObject 0) zero_priority_world)) \<and>
   length (stored_routes 0 (add 0 (PathObject 0) zero_priority_world)) = 1 \<and>
   list_all (\<lambda>x. truthy_opt_number (priority x))
     (stored_routes 0 (add 0 (PathObject 0) zero_priority_world))"
proof -
  have e: "priority_inv empty_world"
    by (simp add: priority_inv_def empty_world_def)
  have z: "priority_inv zero_priority_world"
    by (simp add: priority_inv_def zero_priority_world_eq)
  have h: "0 < length (sitemapStore zero_priority_world)"
    by (simp add: zero_priority_world_eq)
  have a: "priority_inv (add 0 (PathObject 0) zero_priority_world)"
    using stored_priority_is_truthy [OF z, of _ _ 0 "PathObject 0"] by blast
  have l: "0 < length (sitemapStore (add 0 (PathObject 0) zero_priority_world))"
    using h by (simp add: length_sitemapStore_add)
  have n: "length (stored_routes 0 (add 0 (PathObject 0) zero_priority_world)) = 1"
    unfolding stored_routes_add [OF wf_zero_priority_world h]
    by (simp add: stored_routes_def zero_priority_world_eq)
  have "\<forall>x \<in> set (stored_routes 0 (add 0 (PathObject 0) zero_priority_world)).
          \<exists>p. priority x = Some p \<and> truthy_number p"
    using stored_priority_is_truthy [OF a, of _ _ 0] l by blast
  then have "list_all (\<lambda>x. truthy_opt_number (priority x))
               (stored_routes 0 (add 0 (PathObject 0) zero_priority_world))"
    by (auto simp: list_all_iff truthy_opt_number_def)
  then show ?thesis
    using e z a l n by (simp add: zero_priority_world_eq)
qed

section \<open>\<open>generateMultiLanguage\<close>\<close>

lemma extends_new_Sitemap:
  assumes "extends w0 w"
  shows "extends w0 (snd (new_Sitemap base codes w))"
proof -
  have "length (sitemapStore w0) \<le> length (sitemapStore w)"
    using assms by (intro take_prefix_length) (simp add: extends_def)
  then show ?thesis using assms by (simp add: extends_def new_Sitemap_def)
qed

lemma extends_add:
  assumes "extends w0 w" and "length (sitemapStore w0) \<le> t"
  shows "extends w0 (add t P w)"
proof -
  obtain pre where e: "add t P w =
       w\<lparr>routeStore := routeStore w @ pre @ [normalized (sitemapStore w ! t) (as_route P w)],
         sitemapStore := (sitemapStore w)
           [t := (sitemapStore w ! t)
              \<lparr>paths := paths (sitemapStore w ! t) @ [length (routeStore w) + length pre]\<rparr>]\<rparr>"
    using add_eq by blast
  have "length (routeStore w0) \<le> length (routeStore w)"
    using assms(1) by (intro take_prefix_length) (simp add: extends_def)
  then show ?thesis
    unfolding e using assms by (simp add: extends_def)
qed

lemma extends_sitemaps_length: "extends w0 w \<Longrightarrow> length (sitemapStore w0) \<le> length (sitemapStore w)"
  by (intro take_prefix_length) (simp add: extends_def)

lemma extends_generateMultiLanguage: "extends w (snd (generateMultiLanguage this w))"
  by (rule generateMultiLanguage_preserves [of "extends w" "length (sitemapStore w)"])
     (simp_all add: extends_new_Sitemap extends_add extends_grow extends_sitemaps_length extends_refl)

lemma extends_nth_sitemap:
  assumes "extends w w'" and "this < length (sitemapStore w)"
  shows "sitemapStore w' ! this = sitemapStore w ! this"
proof -
  have "take (length (sitemapStore w)) (sitemapStore w') ! this = sitemapStore w' ! this"
    using assms(2) by simp
  then show ?thesis using assms(1) by (simp add: extends_def)
qed

lemma extends_nth_route:
  assumes "extends w w'" and "r < length (routeStore w)"
  shows "routeStore w' ! r = routeStore w ! r"
proof -
  have "take (length (routeStore w)) (routeStore w') ! r = routeStore w' ! r"
    using assms(2) by simp
  then show ?thesis using assms(1) by (simp add: extends_def)
qed

lemma extends_stored_routes:
  assumes "extends w w'" and "wf_world w" and "this < length (sitemapStore w)"
  shows "stored_routes this w' = stored_routes this w"
proof -
  have "sitemapStore w ! this \<in> set (sitemapStore w)" using assms(3) by simp
  then have "\<forall>r \<in> set (paths (sitemapStore w ! this)). r < length (routeStore w)"
    using assms(2) by (auto simp: wf_world_def)
  then show ?thesis
    using extends_nth_route [OF assms(1)]
    by (simp add: stored_routes_def extends_nth_sitemap [OF assms(1,3)])
qed

lemma two_locales_world_eq:
  "two_locales_world =
     \<lparr>routeStore =
        [\<lparr>path = ''/'', lastModified = None, changeFrequency = None, priority = None,
          hreflang = None\<rparr>,
         \<lparr>path = ''https://example.com/'', lastModified = None, changeFrequency = None,
          priority = Some (Decimal 1 0),
          hreflang = Some [(''en'', ''https://example.com/en/''),
                           (''ar'', ''https://example.com/ar/'')]\<rparr>,
         \<lparr>path = ''/about'', lastModified = None, changeFrequency = None, priority = None,
          hreflang = None\<rparr>,
         \<lparr>path = ''https://example.com/about'', lastModified = None, changeFrequency = None,
          priority = Some (Decimal 1 0),
          hreflang = Some [(''en'', ''https://example.com/en/about''),
                           (''ar'', ''https://example.com/ar/about'')]\<rparr>],
      sitemapStore =
        [\<lparr>paths = [1, 3], p_split = False, p_maxURLsPerSitemap = Decimal 50000 0,
          p_splitByLanguages = True, baseUrl = ''https://example.com'',
          localeCodes = [''en'', ''ar'']\<rparr>],
      putFileCalls = []\<rparr>"
  by (simp add: two_locales_world_def new_Sitemap_def empty_world_def add_def parsePath_string
        update_sitemap_def normalized_def as_route_def truthy_opt_number_def
        hreflang_entries_def hreflang_url_def obj_set_def is_array_index_def is_digit_def)

lemma wf_two_locales_world: "wf_world two_locales_world"
  by (simp add: two_locales_world_eq wf_world_def)

lemma urlset_document_valid:
  "\<not> list_ex has_invalid_date R \<Longrightarrow>
   urlset_document R = Inr (urlset_open @ concat (map the_block R) @ urlset_close)"
  by (simp add: urlset_document_def)

lemmas run_simps =
  generateMultiLanguage_def new_Sitemap_def add_def
  parsePath_object parsePath_string update_sitemap_def normalized_def as_route_def
  truthy_opt_number_def truthy_number_def
  toXML_def generate_def generateSitemapsList_def SiteMapGenerator_add_new
  SiteMapGenerator_generate_eq SiteMapGenerator_generateSitemapsList_eq
  limited_def urlset_document_valid has_invalid_date_def
  sitemapindex_open_def sitemapindex_close_def sitemap_block_def stored_routes_def

text \<open>
  C10. \<open>generateMultiLanguage\<close> does not modify the collection it is called on: after the
  call every object that existed before is as it was, so the collection has the same base
  URL, the same locale codes and the same routes with the same fields; the index and the
  children it works on are new objects.
\<close>

theorem generateMultiLanguage_leaves_collection:
  assumes "wf_world w" and "this < length (sitemapStore w)"
  shows "extends w (snd (generateMultiLanguage this w)) \<and>
         sitemapStore (snd (generateMultiLanguage this w)) ! this = sitemapStore w ! this \<and>
         baseUrl (sitemapStore (snd (generateMultiLanguage this w)) ! this) =
           baseUrl (sitemapStore w ! this) \<and>
         localeCodes (sitemapStore (snd (generateMultiLanguage this w)) ! this) =
           localeCodes (sitemapStore w ! this) \<and>
         stored_routes this (snd (generateMultiLanguage this w)) = stored_routes this w"
  using extends_generateMultiLanguage [of w this]
    extends_nth_sitemap [OF extends_generateMultiLanguage assms(2)]
    extends_stored_routes [OF extends_generateMultiLanguage assms]
  by simp

theorem generateMultiLanguage_leaves_collection_witness:
  "wf_world two_locales_world \<and> 0 < length (sitemapStore two_locales_world) \<and>
   sitemapStore (snd (generateMultiLanguage 0 two_locales_world)) ! 0 =
     sitemapStore two_locales_world ! 0 \<and>
   stored_routes 0 (snd (generateMultiLanguage 0 two_locales_world)) =
     stored_routes 0 two_locales_world \<and>
   length (sitemapStore two_locales_world) = 1 \<and>
   length (sitemapStore (snd (generateMultiLanguage 0 two_locales_world))) = 4"
proof -
  have h: "0 < length (sitemapStore two_locales_world)"
    by (simp add: two_locales_world_eq)
  have n: "length (sitemapStore (snd (generateMultiLanguage 0 two_locales_world))) = 4"
    by (simp add: two_locales_world_eq run_simps)
  show ?thesis
    using generateMultiLanguage_leaves_collection [OF wf_two_locales_world h]
      wf_two_locales_world h n
    by (simp add: two_locales_world_eq)
qed

text \<open>
  C6. On the collection with base URL \<open>https://example.com\<close>, locale codes \<open>en\<close> and \<open>ar\<close>
  and the added paths \<open>/\<close> and \<open>/about\<close>, the claim asks for two file writes, of
  \<open>sitemap-en.xml\<close> and \<open>sitemap-ar.xml\<close> with two \<open><url>\<close> entries each under \<open>/en\<close> and
  \<open>/ar\<close>, and for an index of two \<open><sitemap>\<close> entries. What the code does there:
  \<open>putFile\<close> is never called (the text of each child's \<open>toXML\<close> is dropped, whereas \<open>saveTo\<close>
  does call it); each child is fed the parent's stored routes, whose paths are absolute
  already, so its two entries are the child's base URL followed by a whole URL; the index
  returned is the one the claim describes, and it is empty for an empty list of codes.
\<close>

theorem generateMultiLanguage_two_locales:
  \<open>localeCodes (sitemapStore two_locales_world ! 0) = [''en'', ''ar''] \<and>
   map path (stored_routes 0 two_locales_world) =
     [''https://example.com/'', ''https://example.com/about''] \<and>
   putFileCalls two_locales_world = [] \<and>
   putFileCalls (snd (generateMultiLanguage 0 two_locales_world)) = [] \<and>
   map path (stored_routes 2 (snd (generateMultiLanguage 0 two_locales_world))) =
     [''https://example.com/en/https://example.com/'',
      ''https://example.com/en/https://example.com/about''] \<and>
   map path (stored_routes 3 (snd (generateMultiLanguage 0 two_locales_world))) =
     [''https://example.com/ar/https://example.com/'',
      ''https://example.com/ar/https://example.com/about''] \<and>
   fst (generateMultiLanguage 0 two_locales_world) =
     Inr ''<?xml version="1.0" encoding="UTF-8"?>\<newline><sitemapindex xmlns="http://www.sitemaps.org/schemas/sitemap/0.9">\<newline>  <sitemap>\<newline>    <loc>https://example.com/sitemap-en.xml</loc>\<newline>  </sitemap>\<newline>  <sitemap>\<newline>    <loc>https://example.com/sitemap-ar.xml</loc>\<newline>  </sitemap>\<newline></sitemapindex>\<newline>'' \<and>
   map fst (putFileCalls (snd (saveTo 0 ''sitemap.xml'' two_locales_world))) = [''sitemap.xml''] \<and>
   localeCodes (sitemapStore two_routes_world ! 0) = [] \<and>
   fst (generateMultiLanguage 0 two_routes_world) =
     Inr ''<?xml version="1.0" encoding="UTF-8"?>\<newline><sitemapindex xmlns="http://www.sitemaps.org/schemas/sitemap/0.9">\<newline></sitemapindex>\<newline>''\<close>
proof -
  have a: "putFileCalls (snd (generateMultiLanguage 0 two_locales_world)) = []"
    by (simp add: two_locales_world_eq run_simps)
  have b: "map path (stored_routes 2 (snd (generateMultiLanguage 0 two_locales_world))) =
     [''https://example.com/en/https://example.com/'',
      ''https://example.com/en/https://example.com/about'']"
    by (simp add: two_locales_world_eq run_simps ltrim_def)
  have c: "map path (stored_routes 3 (snd (generateMultiLanguage 0 two_locales_world))) =
     [''https://example.com/ar/https://example.com/'',
      ''https://example.com/ar/https://example.com/about'']"
    by (simp add: two_locales_world_eq run_simps)
  have d: \<open>fst (generateMultiLanguage 0 two_locales_world) =
     Inr ''<?xml version="1.0" encoding="UTF-8"?>\<newline><sitemapindex xmlns="http://www.sitemaps.org/schemas/sitemap/0.9">\<newline>  <sitemap>\<newline>    <loc>https://example.com/sitemap-en.xml</loc>\<newline>  </sitemap>\<newline>  <sitemap>\<newline>    <loc>https://example.com/sitemap-ar.xml</loc>\<newline>  </sitemap>\<newline></sitemapindex>\<newline>''\<close>
    by (simp add: two_locales_world_eq run_simps)
  have e: "map fst (putFileCalls (snd (saveTo 0 ''sitemap.xml'' two_locales_world))) = [''sitemap.xml'']"
    by (simp add: two_locales_world_eq saveTo_def putFile_def run_simps)
  have f: \<open>fst (generateMultiLanguage 0 two_routes_world) =
     Inr ''<?xml version="1.0" encoding="UTF-8"?>\<newline><sitemapindex xmlns="http://www.sitemaps.org/schemas/sitemap/0.9">\<newline></sitemapindex>\<newline>''\<close>
    by (simp add: two_routes_world_eq run_simps)
  show ?thesis
    using a b c d e f by (simp add: two_locales_world_eq two_routes_world_eq stored_routes_def)
qed

end
